theory Spec2Isabelle
  imports Complex_Main
begin

section \<open>Exceptions\<close>

text \<open>
  The classes of exception that the two modules raise, catch or receive from the
  libraries they call (builtins, asyncio, ipaddress, httpx).  Every class listed here
  derives from \<open>Exception\<close>.  Cancellation of a task is delivered by the scheduler, not
  raised by this code; it is part of the task model further down, not of this type.
\<close>

datatype exc_class =
    Exception
  | NameError | AttributeError | KeyError
  | ValueError | AddressValueError
  | OSError | ConnectionError | ConnectionResetError
  | QueueFull | QueueEmpty | TimeoutError
  | HTTPError | RequestError | HTTPStatusError
  | TransportError | DecodingError | TooManyRedirects
  | TimeoutException | ConnectTimeout | ReadTimeout | WriteTimeout | PoolTimeout
  | NetworkError | ConnectError | ReadError | WriteError | CloseError
  | ProtocolError | LocalProtocolError | RemoteProtocolError
  | ProxyError | UnsupportedProtocol

text \<open>The direct base class, as the libraries declare it.\<close>

fun base :: "exc_class \<Rightarrow> exc_class option" where
  "base Exception = None"
| "base NameError = Some Exception"
| "base AttributeError = Some Exception"
| "base KeyError = Some Exception"
| "base ValueError = Some Exception"
| "base AddressValueError = Some ValueError"
| "base OSError = Some Exception"
| "base ConnectionError = Some OSError"
| "base ConnectionResetError = Some ConnectionError"
| "base QueueFull = Some Exception"
| "base QueueEmpty = Some Exception"
| "base TimeoutError = Some OSError"
| "base HTTPError = Some Exception"
| "base RequestError = Some HTTPError"
| "base HTTPStatusError = Some HTTPError"
| "base TransportError = Some RequestError"
| "base DecodingError = Some RequestError"
| "base TooManyRedirects = Some RequestError"
| "base TimeoutException = Some TransportError"
| "base ConnectTimeout = Some TimeoutException"
| "base ReadTimeout = Some TimeoutException"
| "base WriteTimeout = Some TimeoutException"
| "base PoolTimeout = Some TimeoutException"
| "base NetworkError = Some TransportError"
| "base ConnectError = Some NetworkError"
| "base ReadError = Some NetworkError"
| "base WriteError = Some NetworkError"
| "base CloseError = Some NetworkError"
| "base ProtocolError = Some TransportError"
| "base LocalProtocolError = Some ProtocolError"
| "base RemoteProtocolError = Some ProtocolError"
| "base ProxyError = Some TransportError"
| "base UnsupportedProtocol = Some TransportError"

text \<open>
  \<open>ancestors n c\<close> climbs at most \<open>n\<close> base links from \<open>c\<close>; the deepest chain above
  (ConnectTimeout up to Exception) has five links.  \<open>issubclass\<close> is Python's
  relation of that name.
\<close>

fun ancestors :: "nat \<Rightarrow> exc_class \<Rightarrow> exc_class list" where
  "ancestors 0 c = [c]"
| "ancestors (Suc n) c = (case base c of None \<Rightarrow> [c] | Some b \<Rightarrow> c # ancestors n b)"

definition issubclass :: "exc_class \<Rightarrow> exc_class \<Rightarrow> bool" where
  "issubclass c d = (d \<in> set (ancestors 6 c))"

text \<open>
  A raised exception: its class and message, or the \<open>httpx.HTTPStatusError\<close> that the
  executor builds from a response with the given status code.
\<close>

datatype pyexc = PyExc exc_class string | StatusError int

fun cls :: "pyexc \<Rightarrow> exc_class" where
  "cls (PyExc c m) = c"
| "cls (StatusError s) = HTTPStatusError"

text \<open>\<open>except (C1, ..., Cn)\<close> catches an exception that is an instance of one of the classes.\<close>

definition caught_by :: "exc_class list \<Rightarrow> pyexc \<Rightarrow> bool" where
  "caught_by cs e = (\<exists>c \<in> set cs. issubclass (cls e) c)"

section \<open>asyncio.Queue\<close>

text \<open>
  The standard library's bounded FIFO queue, restricted to the operations the pool
  uses: the constructor, \<open>full\<close>, \<open>put_nowait\<close> and \<open>get_nowait\<close>.  A \<open>maxsize\<close> of zero
  or less means unbounded.
\<close>

record queue =
  maxsize :: int
  items :: "string list"

definition Queue :: "int \<Rightarrow> queue" where
  "Queue n = \<lparr>maxsize = n, items = []\<rparr>"

definition qsize :: "queue \<Rightarrow> int" where
  "qsize q = int (length (items q))"

definition empty_q :: "queue \<Rightarrow> bool" where
  "empty_q q = (items q = [])"

definition full :: "queue \<Rightarrow> bool" where
  "full q = (if maxsize q \<le> 0 then False else qsize q \<ge> maxsize q)"

definition put_nowait :: "string \<Rightarrow> queue \<Rightarrow> (pyexc + unit) \<times> queue" where
  "put_nowait x q =
     (if full q then (Inl (PyExc QueueFull []), q)
      else (Inr (), q\<lparr>items := items q @ [x]\<rparr>))"

definition get_nowait :: "queue \<Rightarrow> (pyexc + string) \<times> queue" where
  "get_nowait q =
     (case items q of
        [] \<Rightarrow> (Inl (PyExc QueueEmpty []), q)
      | x # rest \<Rightarrow> (Inr x, q\<lparr>items := rest\<rparr>))"

section \<open>Strings\<close>

text \<open>
  Python's \<open>str\<close> is modelled by \<open>string\<close>, one \<open>char\<close> per code point, so the model
  covers the code points below 256.  The character classes are the ones the
  interpreter uses on that range.
\<close>

definition ord :: "char \<Rightarrow> nat" where
  "ord c = of_char c"

definition isascii :: "string \<Rightarrow> bool" where
  "isascii s = list_all (\<lambda>c. ord c < 128) s"

text \<open>\<open>str.isdigit\<close>: the ASCII digits and the superscripts U+00B2, U+00B3, U+00B9.\<close>

definition digit_char :: "char \<Rightarrow> bool" where
  "digit_char c = ((48 \<le> ord c \<and> ord c \<le> 57) \<or> ord c = 178 \<or> ord c = 179 \<or> ord c = 185)"

definition isdigit :: "string \<Rightarrow> bool" where
  "isdigit s = (s \<noteq> [] \<and> list_all digit_char s)"

text \<open>\<open>c.isascii() and c.isalpha()\<close> on one character.\<close>

definition ascii_letter :: "char \<Rightarrow> bool" where
  "ascii_letter c = ((65 \<le> ord c \<and> ord c \<le> 90) \<or> (97 \<le> ord c \<and> ord c \<le> 122))"

text \<open>\<open>urllib.parse.scheme_chars\<close>: ASCII letters, digits and \<open>+-.\<close>\<close>

definition scheme_char :: "char \<Rightarrow> bool" where
  "scheme_char c = (ascii_letter c \<or> (48 \<le> ord c \<and> ord c \<le> 57) \<or> c \<in> set ''+-.'')"

text \<open>\<open>str.lower\<close> on one character: A-Z, and U+00C0 to U+00DE without U+00D7.\<close>

definition lower_c :: "char \<Rightarrow> char" where
  "lower_c c =
     (if (65 \<le> ord c \<and> ord c \<le> 90) \<or> (192 \<le> ord c \<and> ord c \<le> 222 \<and> ord c \<noteq> 215)
      then char_of (ord c + 32) else c)"

definition lower :: "string \<Rightarrow> string" where
  "lower s = map lower_c s"

text \<open>
  The characters \<open>str.strip()\<close> removes: tab to carriage return, U+001C to U+0020,
  U+0085 and U+00A0.
\<close>

definition space_char :: "char \<Rightarrow> bool" where
  "space_char c = ((9 \<le> ord c \<and> ord c \<le> 13) \<or> (28 \<le> ord c \<and> ord c \<le> 32)
                   \<or> ord c = 133 \<or> ord c = 160)"

definition strip :: "string \<Rightarrow> string" where
  "strip s = rev (dropWhile space_char (rev (dropWhile space_char s)))"

text \<open>
  \<open>s.partition(c)\<close> splits at the first \<open>c\<close> and says whether it was found;
  \<open>after_last c s\<close> is \<open>s.rpartition(c)[2]\<close>; \<open>split c s\<close> is \<open>s.split(c)\<close>.
\<close>

definition str_partition :: "char \<Rightarrow> string \<Rightarrow> string \<times> bool \<times> string" where
  "str_partition c s =
     (let a = takeWhile (\<lambda>x. x \<noteq> c) s
      in if length a < length s then (a, True, drop (Suc (length a)) s) else (s, False, []))"

definition after_last :: "char \<Rightarrow> string \<Rightarrow> string" where
  "after_last c s = rev (takeWhile (\<lambda>x. x \<noteq> c) (rev s))"

fun split :: "char \<Rightarrow> string \<Rightarrow> string list" where
  "split c [] = [[]]"
| "split c (x # xs) =
     (if x = c then [] # split c xs
      else (case split c xs of [] \<Rightarrow> [[x]] | w # ws \<Rightarrow> (x # w) # ws))"

text \<open>
  \<open>int(s)\<close> on a string of ASCII digits.  The interpreter refuses more than 4300
  digits (its default limit on integer string conversion).
\<close>

definition decimal :: "string \<Rightarrow> nat" where
  "decimal s = foldl (\<lambda>a c. 10 * a + (ord c - 48)) 0 s"

definition py_int :: "string \<Rightarrow> pyexc + nat" where
  "py_int s =
     (if length s > 4300 then Inl (PyExc ValueError ''Exceeds the limit (4300 digits)'')
      else Inr (decimal s))"

section \<open>urllib.parse.urlparse\<close>

text \<open>
  The parts of the standard library's parser that the validator reads: the scheme and
  the network location, and from the latter the \<open>hostname\<close> and \<open>port\<close> properties.
  Path, parameters, query and fragment are split off after the network location and
  are not read, so the result record leaves them out.

  When the network location holds both \<open>[\<close> and \<open>]\<close> the library checks the bracketed
  host and raises ValueError if it rejects it.  That check has changed between
  interpreter releases; it is the parameter \<open>chk\<close> (true when the check passes).
  The library's normalisation check of a non-ASCII network location never fails on
  code points below 256 and is left out.
\<close>

record parse_result =
  scheme :: string
  netloc :: string

definition urlsplit :: "(string \<Rightarrow> bool) \<Rightarrow> string \<Rightarrow> pyexc + parse_result" where
  "urlsplit chk url0 =
     (let url1 = dropWhile (\<lambda>c. ord c \<le> 32) url0;
          url2 = filter (\<lambda>c. ord c \<noteq> 9 \<and> ord c \<noteq> 13 \<and> ord c \<noteq> 10) url1;
          pre = takeWhile (\<lambda>c. c \<noteq> CHR '':'') url2;
          found = (length pre < length url2 \<and> pre \<noteq> [] \<and> ascii_letter (hd pre)
                   \<and> list_all scheme_char pre);
          sch = (if found then lower pre else []);
          url3 = (if found then drop (Suc (length pre)) url2 else url2)
      in if take 2 url3 = ''//'' then
           (let loc = takeWhile (\<lambda>c. c \<notin> set ''/?#'') (drop 2 url3)
            in if (CHR ''['' \<in> set loc \<and> CHR '']'' \<notin> set loc)
                  \<or> (CHR '']'' \<in> set loc \<and> CHR ''['' \<notin> set loc)
               then Inl (PyExc ValueError ''Invalid IPv6 URL'')
               else if CHR ''['' \<in> set loc \<and> CHR '']'' \<in> set loc \<and> \<not> chk loc
               then Inl (PyExc ValueError ''Invalid bracketed host'')
               else Inr \<lparr>scheme = sch, netloc = loc\<rparr>)
         else Inr \<lparr>scheme = sch, netloc = []\<rparr>)"

definition urlparse :: "(string \<Rightarrow> bool) \<Rightarrow> string \<Rightarrow> pyexc + parse_result" where
  "urlparse chk url = urlsplit chk url"

definition hostinfo :: "parse_result \<Rightarrow> string \<times> string option" where
  "hostinfo r =
     (let hi = after_last CHR ''@'' (netloc r);
          (before, have_open_br, bracketed) = str_partition CHR ''['' hi;
          (host, prt) =
            (if have_open_br then
               (let (h, x, p) = str_partition CHR '']'' bracketed;
                    (y, z, p') = str_partition CHR '':'' p
                in (h, p'))
             else (let (h, x, p) = str_partition CHR '':'' hi in (h, p)))
      in (host, if prt = [] then None else Some prt))"

definition hostname :: "parse_result \<Rightarrow> string option" where
  "hostname r =
     (let h = fst (hostinfo r)
      in if h = [] then None
         else (let (a, percent, zone) = str_partition CHR ''%'' h
               in Some (lower a @ (if percent then ''%'' else []) @ zone)))"

definition port :: "parse_result \<Rightarrow> pyexc + nat option" where
  "port r =
     (case snd (hostinfo r) of
        None \<Rightarrow> Inr None
      | Some p \<Rightarrow>
          if isdigit p \<and> isascii p then
            (case py_int p of
               Inl e \<Rightarrow> Inl e
             | Inr n \<Rightarrow> if n \<le> 65535 then Inr (Some n)
                        else Inl (PyExc ValueError ''Port out of range 0-65535''))
          else Inl (PyExc ValueError ''Port could not be cast to integer value''))"

section \<open>ipaddress.IPv4Address\<close>

definition parse_octet :: "string \<Rightarrow> pyexc + nat" where
  "parse_octet octet_str =
     (if octet_str = [] then Inl (PyExc ValueError ''Empty octet not permitted'')
      else if \<not> (isascii octet_str \<and> isdigit octet_str)
        then Inl (PyExc ValueError ''Only decimal digits permitted'')
      else if length octet_str > 3 then Inl (PyExc ValueError ''At most 3 characters permitted'')
      else if octet_str \<noteq> ''0'' \<and> hd octet_str = CHR ''0''
        then Inl (PyExc ValueError ''Leading zeros are not permitted'')
      else if decimal octet_str > 255 then Inl (PyExc ValueError ''Octet (> 255) not permitted'')
      else Inr (decimal octet_str))"

fun parse_octets :: "string list \<Rightarrow> pyexc + nat list" where
  "parse_octets [] = Inr []"
| "parse_octets (s # ss) =
     (case parse_octet s of
        Inl e \<Rightarrow> Inl e
      | Inr v \<Rightarrow> (case parse_octets ss of Inl e \<Rightarrow> Inl e | Inr vs \<Rightarrow> Inr (v # vs)))"

definition ip_int_from_string :: "string \<Rightarrow> pyexc + nat list" where
  "ip_int_from_string ip_str =
     (if ip_str = [] then Inl (PyExc AddressValueError ''Address cannot be empty'')
      else let octets = split CHR ''.'' ip_str
           in if length octets \<noteq> 4 then Inl (PyExc AddressValueError ''Expected 4 octets'')
              else (case parse_octets octets of
                      Inl e \<Rightarrow> if caught_by [ValueError] e
                               then Inl (PyExc AddressValueError ''Invalid octet'') else Inl e
                    | Inr vs \<Rightarrow> Inr vs))"

text \<open>
  The constructor is given \<open>parsed.hostname\<close>, a string or None; it works on
  \<open>str(address)\<close>, which is \<open>None\<close> spelled out for None.  The result is the four octets.
\<close>

definition IPv4Address :: "string option \<Rightarrow> pyexc + nat list" where
  "IPv4Address address =
     (let addr_str = (case address of None \<Rightarrow> ''None'' | Some s \<Rightarrow> s)
      in if CHR ''/'' \<in> set addr_str then Inl (PyExc AddressValueError ''Unexpected /'')
         else ip_int_from_string addr_str)"

section \<open>ProxyPool._validate_proxy\<close>

text \<open>
  \<open>validate_try\<close> is the body of the outer \<open>try\<close>; \<open>validate_proxy\<close> adds its
  \<open>except Exception\<close> handler.  The logger calls are left out: the verdict does not
  depend on them.  \<open>not parsed.port\<close> holds for None and for 0.
\<close>

definition validate_try :: "(string \<Rightarrow> bool) \<Rightarrow> string \<Rightarrow> pyexc + bool" where
  "validate_try chk proxy =
     (case urlparse chk proxy of
        Inl e \<Rightarrow> Inl e
      | Inr parsed \<Rightarrow>
          if scheme parsed \<noteq> ''http'' \<and> scheme parsed \<noteq> ''https'' then Inr False
          else (case IPv4Address (hostname parsed) of
                  Inl e \<Rightarrow> if caught_by [AddressValueError] e then Inr False else Inl e
                | Inr ip \<Rightarrow>
                    (case port parsed of
                       Inl e \<Rightarrow> Inl e
                     | Inr None \<Rightarrow> Inr False
                     | Inr (Some n) \<Rightarrow>
                         if n = 0 then Inr False
                         else if \<not> (1 \<le> n \<and> n \<le> 65535) then Inr False
                         else Inr True)))"

definition validate_proxy :: "(string \<Rightarrow> bool) \<Rightarrow> string \<Rightarrow> pyexc + bool" where
  "validate_proxy chk proxy =
     (case validate_try chk proxy of
        Inl e \<Rightarrow> if caught_by [Exception] e then Inr False else Inl e
      | Inr b \<Rightarrow> Inr b)"

text \<open>
  The specification's rule for a proxy address, in its own words: the address parses
  as a URI whose scheme is http or https, whose host is an IPv4 dotted quad (four
  decimal numbers from 0 to 255, one to three digits each, written without leading
  zeros), and whose port lies in 1..65535.
\<close>

definition octet_ok :: "string \<Rightarrow> bool" where
  "octet_ok s = (s \<noteq> [] \<and> length s \<le> 3 \<and> list_all (\<lambda>c. 48 \<le> ord c \<and> ord c \<le> 57) s
                 \<and> (s = ''0'' \<or> hd s \<noteq> CHR ''0'') \<and> decimal s \<le> 255)"

definition dotted_quad :: "string \<Rightarrow> bool" where
  "dotted_quad h = (length (split CHR ''.'' h) = 4 \<and> list_all octet_ok (split CHR ''.'' h))"

definition host_quad :: "string option \<Rightarrow> bool" where
  "host_quad ho = (case ho of None \<Rightarrow> False | Some h \<Rightarrow> dotted_quad h)"

definition spec_valid_address :: "(string \<Rightarrow> bool) \<Rightarrow> string \<Rightarrow> bool" where
  "spec_valid_address chk a =
     (case urlparse chk a of
        Inl e \<Rightarrow> False
      | Inr u \<Rightarrow>
          (scheme u = ''http'' \<or> scheme u = ''https'')
          \<and> host_quad (hostname u)
          \<and> (case port u of Inr (Some n) \<Rightarrow> 1 \<le> n \<and> n \<le> 65535 | _ \<Rightarrow> False))"

section \<open>Configuration\<close>

text \<open>
  Modelled from the spec: the configuration classes \<open>AppConfig\<close> and
  \<open>ProxyPlatformConfig\<close> of \<open>config.py\<close>, which is not among the sources.  The fields
  are the ones the two modules read.  A platform entry may lack a priority
  (\<open>x.get("priority", 1)\<close>).
\<close>

record platform =
  name :: string
  get_proxy_link :: string
  priority :: "int option"
  zh_name :: string

record proxy_conf =
  enable :: bool
  use :: string
  proxy_platforms :: "platform list"

record app_config =
  proxy_config :: proxy_conf
  max_retries :: int
  request_timeout :: real

section \<open>The outside world\<close>

text \<open>
  What an outbound GET of a provider results in: a response body, or an exception of
  the HTTP library.  The world answers the n-th GET (counted from zero) to a URL by
  \<open>net n url\<close>.  In the same way \<open>server n proxy\<close> is the outcome of the n-th request
  the executor sends, through a transport bound to \<open>proxy\<close>: a response, or an
  exception.  The other fields are histories: the URLs fetched by providers, the proxy
  of each request sent, the log records written, the providers whose \<open>get_proxy\<close> was
  called (each with the state of the pool's lock at that moment), and the waits on the
  preload task.
\<close>

datatype net_result = Body string | Fails pyexc

record response =
  status_code :: int
  content :: string

datatype http_result = Response response | Throws pyexc

datatype level = INFO | WARNING | ERROR

datatype log_entry = Log level string

datatype provider = DebugProxyProvider string | RemoteProxyProvider platform

datatype await = WaitFor real | AwaitTask

record world =
  net :: "nat \<Rightarrow> string \<Rightarrow> net_result"
  gets :: "string list"
  server :: "nat \<Rightarrow> string option \<Rightarrow> http_result"
  sent :: "string option list"
  logged :: "log_entry list"
  asked :: "(provider \<times> bool) list"
  awaited :: "await list"

definition note_call :: "provider \<Rightarrow> bool \<Rightarrow> world \<Rightarrow> world" where
  "note_call p l w = w\<lparr>asked := asked w @ [(p, l)]\<rparr>"

definition logger :: "level \<Rightarrow> string \<Rightarrow> world \<Rightarrow> world" where
  "logger lv m w = w\<lparr>logged := logged w @ [Log lv m]\<rparr>"

section \<open>Providers\<close>

text \<open>
  \<open>DebugProxyProvider.get_proxy\<close> returns its fixed address.
  \<open>RemoteProxyProvider.get_proxy\<close> sends one GET (timeout 5) to the configured link
  and returns \<open>http://\<close> followed by the stripped body; \<open>except Exception\<close> logs and
  returns None.
\<close>

definition truthy :: "string option \<Rightarrow> bool" where
  "truthy r = (case r of None \<Rightarrow> False | Some x \<Rightarrow> x \<noteq> [])"

fun get_proxy :: "provider \<Rightarrow> world \<Rightarrow> (pyexc + string option) \<times> world" where
  "get_proxy (DebugProxyProvider proxy) w = (Inr (Some proxy), w)"
| "get_proxy (RemoteProxyProvider config) w =
     (let url = get_proxy_link config;
          w1 = w\<lparr>gets := gets w @ [url]\<rparr>
      in case net w (length (gets w)) url of
           Body text \<Rightarrow> (Inr (Some (''http://'' @ strip text)), w1)
         | Fails e \<Rightarrow>
             if caught_by [Exception] e
             then (Inr None, logger ERROR ''get proxy failed'' w1)
             else (Inl e, w1))"

section \<open>ProxyPool\<close>

datatype task_state = Running | Finished | Cancelled

record pool =
  app_conf :: app_config
  providers :: "provider list"
  lock :: bool
  proxy_queue :: queue
  stop_event :: bool
  cooldown_time :: real
  full_queue_cooldown :: real
  invalid_proxy_count :: nat
  preload_task :: "task_state option"
  current_proxy :: "string option"

text \<open>The attribute assignments of \<open>ProxyPool.__init__\<close>, before \<open>_init_providers\<close>.\<close>

definition new_pool :: "app_config \<Rightarrow> pool" where
  "new_pool cfg =
     \<lparr>app_conf = cfg, providers = [], lock = False, proxy_queue = Queue 1,
      stop_event = False, cooldown_time = 1/2, full_queue_cooldown = 5,
      invalid_proxy_count = 0, preload_task = None, current_proxy = None\<rparr>"

text \<open>
  Names that \<open>proxy.py\<close> binds at module level (its imports and its classes).  A
  global name that the module does not bind, and that is no builtin, raises NameError
  when it is evaluated; \<open>load_global\<close> is used for the names \<open>debug\<close> and
  \<open>debug_proxy\<close>, neither of which is a builtin.
\<close>

datatype pyval = PyObject | PyBool bool | PyStr string

definition module_globals :: "(string \<times> pyval) list" where
  "module_globals =
     [(''Optional'', PyObject), (''ABC'', PyObject), (''abstractmethod'', PyObject),
      (''urlparse'', PyObject), (''ipaddress'', PyObject), (''asyncio'', PyObject),
      (''httpx'', PyObject), (''logger'', PyObject), (''AppConfig'', PyObject),
      (''ProxyPlatformConfig'', PyObject), (''ProxyProvider'', PyObject),
      (''DebugProxyProvider'', PyObject), (''RemoteProxyProvider'', PyObject),
      (''ProxyPool'', PyObject)]"

definition load_global :: "string \<Rightarrow> pyexc + pyval" where
  "load_global n =
     (case map_of module_globals n of
        None \<Rightarrow> Inl (PyExc NameError n)
      | Some v \<Rightarrow> Inr v)"

fun truthy_val :: "pyval \<Rightarrow> bool" where
  "truthy_val PyObject = True"
| "truthy_val (PyBool b) = b"
| "truthy_val (PyStr x) = (x \<noteq> [])"

fun str_of :: "pyval \<Rightarrow> string" where
  "str_of (PyStr x) = x"
| "str_of v = []"

definition start_preload :: "pool \<Rightarrow> pool" where
  "start_preload s =
     (if providers s \<noteq> [] \<and> preload_task s = None
      then s\<lparr>preload_task := Some Running\<rparr> else s)"

text \<open>
  \<open>_init_providers\<close>.  \<open>debug and debug_proxy\<close> evaluates \<open>debug\<close> first and
  \<open>debug_proxy\<close> only when \<open>debug\<close> is true.  The result pairs the outcome with the
  pool as it is when the method returns or raises.
\<close>

definition init_providers :: "pool \<Rightarrow> (pyexc + unit) \<times> pool" where
  "init_providers s =
     (let conf = proxy_config (app_conf s)
      in if \<not> enable conf then (Inr (), s)
         else
           (case load_global ''debug'' of
              Inl e \<Rightarrow> (Inl e, s)
            | Inr d \<Rightarrow>
                (case (if truthy_val d then load_global ''debug_proxy'' else Inr d) of
                   Inl e \<Rightarrow> (Inl e, s)
                 | Inr c \<Rightarrow>
                     if truthy_val c then
                       (case load_global ''debug_proxy'' of
                          Inl e \<Rightarrow> (Inl e, s)
                        | Inr dp \<Rightarrow>
                            (Inr (), start_preload
                               (s\<lparr>providers := providers s @ [DebugProxyProvider (str_of dp)]\<rparr>)))
                     else if use conf = ''debug_proxy'' then
                       (case load_global ''debug_proxy'' of
                          Inl e \<Rightarrow> (Inl e, s)
                        | Inr dp \<Rightarrow>
                            (Inr (), start_preload
                               (if truthy_val dp
                                then s\<lparr>providers := providers s @ [DebugProxyProvider (str_of dp)]\<rparr>
                                else s)))
                     else
                       (let platforms = filter (\<lambda>p. name p = use conf) (proxy_platforms conf);
                            sorted = sort_key (\<lambda>x. case priority x of None \<Rightarrow> 1 | Some k \<Rightarrow> k)
                                       platforms
                        in (Inr (), start_preload
                              (s\<lparr>providers := providers s @ map RemoteProxyProvider sorted\<rparr>))))))"

definition ProxyPool_init :: "app_config \<Rightarrow> (pyexc + unit) \<times> pool" where
  "ProxyPool_init cfg = init_providers (new_pool cfg)"

subsection \<open>The preload worker\<close>

text \<open>
  \<open>scan\<close> is the \<open>for provider in self.providers\<close> loop of one pass, run from one
  suspension-free moment to the next: it ends normally with the wait time (at the end
  of the list or at \<open>break\<close>), by the \<open>return\<close> that leaves the worker, or by an
  exception.  \<open>proxy and self._validate_proxy(proxy)\<close> is false for None and for the
  empty string without calling the validator.
\<close>

datatype 'a flow = Normal 'a | Return | Raise pyexc

fun scan :: "(string \<Rightarrow> bool) \<Rightarrow> provider list \<Rightarrow> real \<Rightarrow> pool \<Rightarrow> world
               \<Rightarrow> real flow \<times> pool \<times> world" where
  "scan chk [] wait_time s w = (Normal wait_time, s, w)"
| "scan chk (p # ps) wait_time s w =
     (if stop_event s then (Return, s, w)
      else
        (case get_proxy p (note_call p (lock s) w) of
           (Inl e, w') \<Rightarrow> (Raise e, s, w')
         | (Inr proxy, w') \<Rightarrow>
             (case (if truthy proxy then validate_proxy chk (the proxy) else Inr False) of
                Inl e \<Rightarrow> (Raise e, s, w')
              | Inr True \<Rightarrow>
                  (case put_nowait (the proxy) (proxy_queue s) of
                     (Inr u, q') \<Rightarrow> scan chk ps 0 (s\<lparr>proxy_queue := q'\<rparr>) w'
                   | (Inl e, q') \<Rightarrow>
                       if caught_by [QueueFull] e
                       then (Normal wait_time, s, logger WARNING ''proxy queue full'' w')
                       else (Raise e, s, w'))
              | Inr False \<Rightarrow>
                  scan chk ps wait_time
                    (s\<lparr>invalid_proxy_count := invalid_proxy_count s + 1\<rparr>) w')))"

text \<open>
  One turn of the worker's \<open>while\<close> loop: what the worker does next (sleep for a
  time, go round again at once, or leave the loop), and the new state.  An exception
  in the turn is logged and followed by a sleep of 1.  The handler for a cancellation
  is not part of a turn: a cancellation comes from the scheduler at a suspension point.
\<close>

datatype step = Sleep real | NoSleep | Exit

definition preload_pass :: "(string \<Rightarrow> bool) \<Rightarrow> pool \<Rightarrow> world \<Rightarrow> step \<times> pool \<times> world" where
  "preload_pass chk s w =
     (if stop_event s then (Exit, s, w)
      else
        (let wait_time = cooldown_time s
         in if full (proxy_queue s) then (Sleep (full_queue_cooldown s), s, w)
            else
              (case scan chk (providers s) wait_time (s\<lparr>lock := True\<rparr>) w of
                 (Return, s', w') \<Rightarrow> (Exit, s'\<lparr>lock := False\<rparr>, w')
               | (Normal wt, s', w') \<Rightarrow>
                   (if \<not> stop_event s' then Sleep wt else NoSleep, s'\<lparr>lock := False\<rparr>, w')
               | (Raise e, s', w') \<Rightarrow>
                   (Sleep 1, s'\<lparr>lock := False\<rparr>, logger ERROR ''preload worker error'' w'))))"

subsection \<open>get_next_proxy\<close>

fun fallback_scan :: "provider list \<Rightarrow> pool \<Rightarrow> world
                        \<Rightarrow> (pyexc + string option) \<times> pool \<times> world" where
  "fallback_scan [] s w = (Inr None, s, w)"
| "fallback_scan (p # ps) s w =
     (case get_proxy p (note_call p (lock s) w) of
        (Inl e, w') \<Rightarrow> (Inl e, s, w')
      | (Inr proxy, w') \<Rightarrow>
          if truthy proxy then (Inr proxy, s\<lparr>current_proxy := proxy\<rparr>, w')
          else fallback_scan ps s w')"

definition get_next_proxy :: "pool \<Rightarrow> world \<Rightarrow> (pyexc + string option) \<times> pool \<times> world" where
  "get_next_proxy s w =
     (case get_nowait (proxy_queue s) of
        (Inr proxy, q') \<Rightarrow> (Inr (Some proxy), s\<lparr>proxy_queue := q', current_proxy := Some proxy\<rparr>, w)
      | (Inl e, q') \<Rightarrow>
          if caught_by [QueueEmpty] e then
            (case fallback_scan (providers s) (s\<lparr>lock := True\<rparr>) w of
               (r, s', w') \<Rightarrow> (r, s'\<lparr>lock := False\<rparr>, w'))
          else (Inl e, s, w))"

subsection \<open>close\<close>




subsection \<open>The buffer under interleaving\<close>

text \<open>
  The pool's buffer is created by \<open>asyncio.Queue(maxsize=1)\<close> in \<open>ProxyPool.__init__\<close>.
  After that the source touches it in two places only: \<open>put_nowait\<close> in the preload
  worker and \<open>get_nowait\<close> in \<open>get_next_proxy\<close>.  Both are atomic between suspension
  points, so every interleaving of the two tasks is a sequence of these two steps.
\<close>

inductive buffer_reach :: "queue \<Rightarrow> bool" where
  start: "buffer_reach (proxy_queue (new_pool cfg))"
| preload_put: "buffer_reach q \<Longrightarrow> buffer_reach (snd (put_nowait x q))"
| consumer_take: "buffer_reach q \<Longrightarrow> buffer_reach (snd (get_nowait q))"

section \<open>Derived notions used to state the properties\<close>

text \<open>
  \<open>answer p w\<close> is the candidate that provider \<open>p\<close> yields in world \<open>w\<close>, \<open>ask p l w\<close>
  the world after the call, and \<open>answers ps l w\<close> the candidates that the providers
  \<open>ps\<close> yield when they are called one after the other.  \<open>upto_first P xs\<close> counts
  the elements a loop looks at when it stops at the first one with \<open>P\<close>.
\<close>

definition answer :: "provider \<Rightarrow> world \<Rightarrow> string option" where
  "answer p w = (case fst (get_proxy p w) of Inr r \<Rightarrow> r | Inl e \<Rightarrow> None)"

definition ask :: "provider \<Rightarrow> bool \<Rightarrow> world \<Rightarrow> world" where
  "ask p l w = snd (get_proxy p (note_call p l w))"

fun answers :: "provider list \<Rightarrow> bool \<Rightarrow> world \<Rightarrow> string option list" where
  "answers [] l w = []"
| "answers (p # ps) l w = answer p (note_call p l w) # answers ps l (ask p l w)"

fun upto_first :: "('a \<Rightarrow> bool) \<Rightarrow> 'a list \<Rightarrow> nat" where
  "upto_first P [] = 0"
| "upto_first P (x # xs) = (if P x then 1 else Suc (upto_first P xs))"

definition first_truthy :: "string option list \<Rightarrow> string option" where
  "first_truthy as = (case filter truthy as of [] \<Rightarrow> None | a # rest \<Rightarrow> a)"

text \<open>
  A candidate is acceptable to the preload worker when it is present, not empty and
  passes the validator.  \<open>flags\<close> marks the acceptable ones among the providers'
  candidates; \<open>asked_count\<close> counts the candidates up to and including the second
  acceptable one (all of them when fewer than two are acceptable).
\<close>

definition acceptable :: "(string \<Rightarrow> bool) \<Rightarrow> string option \<Rightarrow> bool" where
  "acceptable chk a = (truthy a \<and> validate_proxy chk (the a) = Inr True)"

definition flags :: "(string \<Rightarrow> bool) \<Rightarrow> provider list \<Rightarrow> bool \<Rightarrow> world \<Rightarrow> bool list" where
  "flags chk ps l w = map (acceptable chk) (answers ps l w)"

definition asked_count :: "bool list \<Rightarrow> nat" where
  "asked_count bs = upto_first id bs + upto_first id (drop (upto_first id bs) bs)"

section \<open>BaseApiClient\<close>

text \<open>
  The executor's attributes that the retry loop reads or writes.  \<open>cache_data\<close> is read
  by \<open>_create_http_client\<close> but is not assigned in \<open>__init__\<close> (the assignment is
  commented out): it is None here when the concrete client has not set it, and
  reading it then raises AttributeError.  \<open>retries_max\<close> is \<open>self.max_retries\<close> and
  \<open>client_proxy\<close> is \<open>self.current_proxy\<close> (the plain names belong to the
  configuration and to the pool).  \<open>fetched\<close> is a history of the addresses the
  executor obtained from \<open>get_next_proxy\<close>.  Header fabrication is outside the model.
\<close>

record transport =
  via :: "string option"
  closed :: bool

record client =
  cache_data :: "(string \<times> string) list option"
  async_client :: "transport option"
  client_proxy :: "string option"
  proxy_pool :: pool
  retries_max :: int
  retry_status_codes :: "int list"
  retry_exceptions :: "exc_class list"
  fetched :: "string option list"

text \<open>The attribute assignments of \<open>BaseApiClient.__init__\<close>, given the pool.\<close>

definition new_client :: "app_config \<Rightarrow> pool \<Rightarrow> client" where
  "new_client cfg pl =
     \<lparr>cache_data = None, async_client = None, client_proxy = None, proxy_pool = pl,
      retries_max = max_retries cfg,
      retry_status_codes = [429, 500, 502, 503, 504],
      retry_exceptions = [RequestError, ProxyError, ConnectTimeout, ConnectionResetError],
      fetched = []\<rparr>"

text \<open>\<open>await self.proxy_pool.get_next_proxy()\<close> as the executor calls it.\<close>

definition pool_next :: "client \<Rightarrow> world \<Rightarrow> (pyexc + string option) \<times> client \<times> world" where
  "pool_next c w =
     (case get_next_proxy (proxy_pool c) w of
        (Inl e, pl, w') \<Rightarrow> (Inl e, c\<lparr>proxy_pool := pl\<rparr>, w')
      | (Inr a, pl, w') \<Rightarrow> (Inr a, c\<lparr>proxy_pool := pl, fetched := fetched c @ [a]\<rparr>, w'))"

text \<open>
  \<open>_create_http_client\<close>.  A pool object is always true in \<open>if self.proxy_pool\<close>, so
  the address is always fetched.
\<close>

definition create_http_client :: "client \<Rightarrow> world \<Rightarrow> (pyexc + transport) \<times> client \<times> world" where
  "create_http_client c w =
     (case pool_next c w of
        (Inl e, c1, w1) \<Rightarrow> (Inl e, c1, w1)
      | (Inr a, c1, w1) \<Rightarrow>
          (let c2 = c1\<lparr>client_proxy := a\<rparr>
           in case cache_data c2 of
                None \<Rightarrow> (Inl (PyExc AttributeError ''cache_data''), c2, w1)
              | Some jar \<Rightarrow> (Inr \<lparr>via = client_proxy c2, closed = False\<rparr>, c2, w1)))"

definition refresh_client :: "client \<Rightarrow> world \<Rightarrow> (pyexc + unit) \<times> client \<times> world" where
  "refresh_client c w =
     (let c1 = (case async_client c of
                  None \<Rightarrow> c
                | Some t \<Rightarrow> c\<lparr>async_client := Some (t\<lparr>closed := True\<rparr>)\<rparr>)
      in case create_http_client c1 w of
           (Inl e, c2, w2) \<Rightarrow> (Inl e, c2, w2)
         | (Inr t, c2, w2) \<Rightarrow> (Inr (), c2\<lparr>async_client := Some t\<rparr>, w2))"

definition get_http_client :: "client \<Rightarrow> world \<Rightarrow> (pyexc + transport) \<times> client \<times> world" where
  "get_http_client c w =
     (case async_client c of
        None \<Rightarrow>
          (case create_http_client c w of
             (Inl e, c1, w1) \<Rightarrow> (Inl e, c1, w1)
           | (Inr t, c1, w1) \<Rightarrow> (Inr t, c1\<lparr>async_client := Some t\<rparr>, w1))
      | Some t \<Rightarrow> (Inr t, c, w))"

text \<open>
  The body of the \<open>try\<close> in \<open>_request_with_retry\<close>: obtain the transport, send the
  request, raise HTTPStatusError on a status in \<open>retry_status_codes\<close>, else return
  the response.  \<open>verdict\<close> is what the body makes of the outcome of the request.
\<close>

definition verdict :: "client \<Rightarrow> http_result \<Rightarrow> pyexc + response" where
  "verdict c h =
     (case h of
        Throws e \<Rightarrow> Inl e
      | Response r \<Rightarrow>
          if status_code r \<in> set (retry_status_codes c)
          then Inl (StatusError (status_code r))
          else Inr r)"

definition attempt :: "client \<Rightarrow> world \<Rightarrow> (pyexc + response) \<times> client \<times> world" where
  "attempt c w =
     (case get_http_client c w of
        (Inl e, c1, w1) \<Rightarrow> (Inl e, c1, w1)
      | (Inr t, c1, w1) \<Rightarrow>
          (verdict c1 (server w1 (length (sent w1)) (via t)), c1, w1\<lparr>sent := sent w1 @ [via t]\<rparr>))"

text \<open>
  The \<open>except self.retry_exceptions\<close> handler up to \<open>retries += 1\<close>: a warning, one
  address fetched and dropped, and the transport rebuilt.
\<close>

definition on_failure :: "client \<Rightarrow> world \<Rightarrow> (pyexc + unit) \<times> client \<times> world" where
  "on_failure c w =
     (case pool_next c (logger WARNING ''request failed'' w) of
        (Inl e, c1, w1) \<Rightarrow> (Inl e, c1, w1)
      | (Inr a, c1, w1) \<Rightarrow> refresh_client c1 w1)"

text \<open>
  The \<open>while retries <= self.max_retries\<close> loop.  The result is the response, or None
  when the loop ends without returning, or the exception that leaves the method.
\<close>

function retry_loop :: "int \<Rightarrow> client \<Rightarrow> world \<Rightarrow> (pyexc + response option) \<times> client \<times> world" where
  "retry_loop retries c w =
     (if retries \<le> retries_max c then
        (case attempt c w of
           (Inr r, c1, w1) \<Rightarrow> (Inr (Some r), c1, w1)
         | (Inl e, c1, w1) \<Rightarrow>
             if caught_by (retry_exceptions c1) e then
               (case on_failure c1 w1 of
                  (Inl e', c2, w2) \<Rightarrow> (Inl e', c2, w2)
                | (Inr u, c2, w2) \<Rightarrow>
                    if retries + 1 > retries_max c2
                    then (Inl e, c2, logger ERROR ''max retries reached'' w2)
                    else retry_loop (retries + 1) c2 w2)
             else (Inl e, c1, w1))
      else (Inr None, c, w))"
  by pat_completeness auto

text \<open>The loop ends: no step changes \<open>max_retries\<close>, and \<open>retries\<close> grows.\<close>

lemma pool_next_keeps:
  "pool_next c w = (r, c', w') \<Longrightarrow>
   retries_max c' = retries_max c \<and> cache_data c' = cache_data c
   \<and> retry_exceptions c' = retry_exceptions c \<and> retry_status_codes c' = retry_status_codes c
   \<and> async_client c' = async_client c"
  by (auto simp: pool_next_def split: prod.splits sum.splits)

lemma create_http_client_keeps:
  "create_http_client c w = (r, c', w') \<Longrightarrow>
   retries_max c' = retries_max c \<and> cache_data c' = cache_data c
   \<and> retry_exceptions c' = retry_exceptions c \<and> retry_status_codes c' = retry_status_codes c"
  by (auto simp: create_http_client_def Let_def split: prod.splits sum.splits option.splits
      dest: pool_next_keeps)

lemma refresh_client_keeps:
  "refresh_client c w = (r, c', w') \<Longrightarrow>
   retries_max c' = retries_max c \<and> cache_data c' = cache_data c
   \<and> retry_exceptions c' = retry_exceptions c \<and> retry_status_codes c' = retry_status_codes c"
  by (auto simp: refresh_client_def Let_def split: prod.splits sum.splits option.splits
      dest: create_http_client_keeps)

lemma get_http_client_keeps:
  "get_http_client c w = (r, c', w') \<Longrightarrow>
   retries_max c' = retries_max c \<and> cache_data c' = cache_data c
   \<and> retry_exceptions c' = retry_exceptions c \<and> retry_status_codes c' = retry_status_codes c"
  by (auto simp: get_http_client_def Let_def split: prod.splits sum.splits option.splits
      dest: create_http_client_keeps)

lemma attempt_keeps:
  "attempt c w = (r, c', w') \<Longrightarrow>
   retries_max c' = retries_max c \<and> cache_data c' = cache_data c
   \<and> retry_exceptions c' = retry_exceptions c \<and> retry_status_codes c' = retry_status_codes c"
  by (auto simp: attempt_def Let_def split: prod.splits sum.splits http_result.splits if_splits
      dest: get_http_client_keeps)

lemma on_failure_keeps:
  "on_failure c w = (r, c', w') \<Longrightarrow>
   retries_max c' = retries_max c \<and> cache_data c' = cache_data c
   \<and> retry_exceptions c' = retry_exceptions c \<and> retry_status_codes c' = retry_status_codes c"
  by (fastforce simp: on_failure_def split: prod.splits sum.splits
      dest: pool_next_keeps refresh_client_keeps)

termination retry_loop
proof (relation "measure (\<lambda>(r, c, w). nat (retries_max c + 1 - r))")
  show "wf (measure (\<lambda>(r, c, w). nat (retries_max c + 1 - r)))" by simp
next
  fix retries :: int and c w x y e c1 w1 x2 xa ya u c2 w2
  assume le: "retries \<le> retries_max c"
    and a: "(x, y) = attempt c w" "(c1, w1) = y"
    and f: "(xa, ya) = on_failure c1 w1" "(c2, w2) = ya"
  from a have "attempt c w = (x, c1, w1)" by simp
  from attempt_keeps [OF this] have 1: "retries_max c1 = retries_max c" by simp
  from f have "on_failure c1 w1 = (xa, c2, w2)" by simp
  from on_failure_keeps [OF this] have 2: "retries_max c2 = retries_max c1" by simp
  from le 1 2
  show "((retries + 1, c2, w2), retries, c, w) \<in> measure (\<lambda>(r, c, w). nat (retries_max c + 1 - r))"
    by simp
qed

declare retry_loop.simps [simp del]

section \<open>Example inputs\<close>

text \<open>
  A configuration with proxies enabled and one remote platform; a world whose proxy
  endpoint answers with an address padded by blanks and whose target server always
  times out; a world whose proxy endpoint is down.
\<close>

definition ex_platform :: platform where
  "ex_platform = \<lparr>name = ''kuai'', get_proxy_link = ''http://api.example/get'',
                   priority = Some 1, zh_name = ''kuai''\<rparr>"

definition ex_cfg :: app_config where
  "ex_cfg = \<lparr>proxy_config = \<lparr>enable = True, use = ''kuai'', proxy_platforms = [ex_platform]\<rparr>,
             max_retries = 3, request_timeout = 10\<rparr>"

definition ex_world :: world where
  "ex_world = \<lparr>net = (\<lambda>n u. Body '' 1.2.3.4:80 ''),
               gets = [],
               server = (\<lambda>n p. Throws (PyExc ConnectTimeout ''timed out'')),
               sent = [], logged = [], asked = [], awaited = []\<rparr>"

definition ex_down :: world where
  "ex_down = ex_world\<lparr>net := (\<lambda>n u. Fails (PyExc ConnectError ''unreachable''))\<rparr>"

text \<open>A pool whose provider list has been filled: a fixed address first, then the platform.\<close>

definition ex_pool :: pool where
  "ex_pool = (new_pool ex_cfg)\<lparr>providers := [DebugProxyProvider ''http://192.0.2.1:8080'',
                                               RemoteProxyProvider ex_platform]\<rparr>"

section \<open>The executor: derived notions and example inputs\<close>

text \<open>\<open>_request_with_retry\<close>: \<open>retries = 0\<close>, then the loop.\<close>

definition request_with_retry :: "client \<Rightarrow> world \<Rightarrow> (pyexc + response option) \<times> client \<times> world" where
  "request_with_retry c w = retry_loop 0 c w"

text \<open>
  The exception an attempt raises when its outcome is a failure, and what the
  specification calls a retryable failure.
\<close>

definition exc_of :: "http_result \<Rightarrow> pyexc" where
  "exc_of h = (case h of Throws e \<Rightarrow> e | Response r \<Rightarrow> StatusError (status_code r))"

definition retryable :: "client \<Rightarrow> http_result \<Rightarrow> bool" where
  "retryable c h = (case h of Throws e \<Rightarrow> caught_by (retry_exceptions c) e
                    | Response r \<Rightarrow> status_code r \<in> set (retry_status_codes c))"

text \<open>The three results of one call of \<open>get_next_proxy\<close>, by name.\<close>

definition gnp_addr :: "pool \<Rightarrow> world \<Rightarrow> string option" where
  "gnp_addr s w = (case fst (get_next_proxy s w) of Inr a \<Rightarrow> a | Inl e \<Rightarrow> None)"

definition gnp_pool :: "pool \<Rightarrow> world \<Rightarrow> pool" where
  "gnp_pool s w = fst (snd (get_next_proxy s w))"

definition gnp_world :: "pool \<Rightarrow> world \<Rightarrow> world" where
  "gnp_world s w = snd (snd (get_next_proxy s w))"

text \<open>
  An executor whose concrete class has set \<open>cache_data\<close>, and servers that always
  answer 500 or 200.
\<close>

definition ex_client :: client where
  "ex_client = (new_client ex_cfg ex_pool)\<lparr>cache_data := Some []\<rparr>"

definition ex_busy :: world where
  "ex_busy = ex_world\<lparr>server := (\<lambda>n p. Response \<lparr>status_code = 500, content = ''busy''\<rparr>)\<rparr>"

definition ex_fine :: world where
  "ex_fine = ex_world\<lparr>server := (\<lambda>n p. Response \<lparr>status_code = 200, content = ''ok''\<rparr>)\<rparr>"




section \<open>Theorems\<close>

lemma buffer_reach_inv:
  "buffer_reach q \<Longrightarrow> maxsize q = 1 \<and> length (items q) \<le> 1"
proof (induction rule: buffer_reach.induct)
  case (start cfg)
  show ?case by (simp add: new_pool_def Queue_def)
next
  case (preload_put q x)
  then show ?case
    by (cases "items q") (auto simp: put_nowait_def full_def qsize_def)
next
  case (consumer_take q)
  then show ?case by (cases "items q") (auto simp: get_nowait_def)
qed

text \<open>
  C7.  Whatever sequence of preload puts and consumer takes has run, the buffer has
  capacity one and holds at most one address, and a put into the full buffer raises
  QueueFull and leaves the buffer as it was.
\<close>

theorem C7_buffer_at_most_one:
  assumes "buffer_reach q"
  shows "maxsize q = 1 \<and> length (items q) \<le> 1
         \<and> (full q \<longrightarrow> put_nowait x q = (Inl (PyExc QueueFull []), q))"
  using buffer_reach_inv [OF assms] by (simp add: put_nowait_def)

theorem C7_buffer_at_most_one_witness:
  "buffer_reach (snd (put_nowait ''http://1.2.3.4:80'' (Queue 1)))
   \<and> full (snd (put_nowait ''http://1.2.3.4:80'' (Queue 1)))
   \<and> items (snd (put_nowait ''http://5.6.7.8:80''
        (snd (put_nowait ''http://1.2.3.4:80'' (Queue 1))))) = [''http://1.2.3.4:80'']"
proof -
  let ?q = "snd (put_nowait ''http://1.2.3.4:80'' (Queue 1))"
  have "buffer_reach (proxy_queue (new_pool ex_cfg))" by (rule buffer_reach.start)
  then have "buffer_reach (Queue 1)" by (simp add: new_pool_def)
  then have r: "buffer_reach ?q" by (rule buffer_reach.preload_put)
  have f: "full ?q"
    by (simp add: put_nowait_def full_def qsize_def Queue_def)
  from C7_buffer_at_most_one [OF r, of "''http://5.6.7.8:80''"] f
  have "put_nowait ''http://5.6.7.8:80'' ?q = (Inl (PyExc QueueFull []), ?q)" by blast
  then have "items (snd (put_nowait ''http://5.6.7.8:80'' ?q)) = items ?q" by simp
  moreover have "items ?q = [''http://1.2.3.4:80'']"
    by (simp add: put_nowait_def full_def qsize_def Queue_def)
  ultimately show ?thesis using r f by simp
qed

subsection \<open>The proxy validator\<close>


lemma issubclass_Exception: "issubclass c Exception"
  by (cases c) (simp_all add: issubclass_def eval_nat_numeral)

lemma caught_by_Exception: "caught_by [Exception] e"
  by (simp add: caught_by_def issubclass_Exception)

lemma issubclass_refl: "issubclass c c"
  by (simp add: issubclass_def eval_nat_numeral split: option.split)

lemma ascii_digit_char: "(ord c < 128 \<and> digit_char c) = (48 \<le> ord c \<and> ord c \<le> 57)"
  by (auto simp: digit_char_def)

lemma ascii_digits:
  "(isascii s \<and> isdigit s) = (s \<noteq> [] \<and> list_all (\<lambda>c. 48 \<le> ord c \<and> ord c \<le> 57) s)"
proof -
  have "(list_all (\<lambda>c. ord c < 128) s \<and> list_all digit_char s)
        = list_all (\<lambda>c. 48 \<le> ord c \<and> ord c \<le> 57) s"
    by (induction s) (auto simp: ascii_digit_char [symmetric])
  then show ?thesis by (auto simp: isascii_def isdigit_def)
qed

lemma parse_octet_ok: "parse_octet s = Inr v \<longleftrightarrow> (octet_ok s \<and> v = decimal s)"
  unfolding parse_octet_def octet_ok_def ascii_digits by auto

lemma parse_octet_err: "parse_octet s = Inl e \<Longrightarrow> cls e = ValueError \<and> \<not> octet_ok s"
  unfolding parse_octet_def octet_ok_def ascii_digits by (auto split: if_splits)

lemma parse_octets_ok: "parse_octets ss = Inr vs \<Longrightarrow> list_all octet_ok ss"
  by (induction ss arbitrary: vs) (auto simp: parse_octet_ok split: sum.splits)

lemma parse_octets_err:
  "parse_octets ss = Inl e \<Longrightarrow> cls e = ValueError \<and> \<not> list_all octet_ok ss"
proof (induction ss)
  case Nil
  then show ?case by simp
next
  case (Cons s ss)
  then show ?case
    by (auto simp: parse_octet_ok split: sum.splits dest: parse_octet_err)
qed

lemma ValueError_caught: "cls e = ValueError \<Longrightarrow> caught_by [ValueError] e"
  by (simp add: caught_by_def issubclass_refl)

lemma AddressValueError_caught: "caught_by [AddressValueError] (PyExc AddressValueError m)"
  by (simp add: caught_by_def issubclass_refl)

lemma split_covers:
  "x \<in> set s \<Longrightarrow> x \<noteq> c \<Longrightarrow> \<exists>w \<in> set (split c s). x \<in> set w"
proof (induction s)
  case Nil
  then show ?case by simp
next
  case (Cons y ys)
  then show ?case by (cases "split c ys") (auto split: list.splits)
qed

lemma slash_not_octet: "CHR ''/'' \<in> set w \<Longrightarrow> \<not> octet_ok w"
proof
  assume s: "CHR ''/'' \<in> set w" and "octet_ok w"
  then have "\<forall>c \<in> set w. 48 \<le> ord c" by (simp add: octet_ok_def list_all_iff)
  with s have "48 \<le> ord CHR ''/''" by blast
  then show False by (simp add: ord_def)
qed

lemma slash_not_quad: "CHR ''/'' \<in> set h \<Longrightarrow> \<not> dotted_quad h"
proof
  assume s: "CHR ''/'' \<in> set h" and q: "dotted_quad h"
  from split_covers [OF s, of "CHR ''.''"] obtain w
    where w: "w \<in> set (split CHR ''.'' h)" "CHR ''/'' \<in> set w" by auto
  from q w(1) have "octet_ok w" by (simp add: dotted_quad_def list_all_iff)
  with slash_not_octet [OF w(2)] show False by simp
qed

lemma None_not_quad: "\<not> dotted_quad ''None''"
  by (simp add: dotted_quad_def)


lemma IPv4Address_ok: "IPv4Address ho = Inr v \<Longrightarrow> host_quad ho"
  apply (cases ho)
   apply (simp add: IPv4Address_def ip_int_from_string_def Let_def host_quad_def split: if_splits sum.splits)
  apply (auto simp add: IPv4Address_def ip_int_from_string_def Let_def host_quad_def dotted_quad_def split: if_splits sum.splits dest: parse_octets_ok)
  done

lemma ip_int_from_string_err:
  "ip_int_from_string h = Inl e \<Longrightarrow> caught_by [AddressValueError] e \<and> \<not> dotted_quad h"
  by (auto simp add: ip_int_from_string_def Let_def dotted_quad_def AddressValueError_caught
      split: if_splits sum.splits dest: parse_octets_err ValueError_caught)

lemma IPv4Address_err:
  "IPv4Address ho = Inl e \<Longrightarrow> caught_by [AddressValueError] e \<and> \<not> host_quad ho"
proof (cases ho)
  case None
  assume "IPv4Address ho = Inl e"
  with None have "ip_int_from_string ''None'' = Inl e" by (simp add: IPv4Address_def)
  from ip_int_from_string_err [OF this] None show ?thesis by (simp add: host_quad_def)
next
  case (Some h)
  assume a: "IPv4Address ho = Inl e"
  show ?thesis
  proof (cases "CHR ''/'' \<in> set h")
    case True
    with a Some show ?thesis
      by (auto simp add: IPv4Address_def host_quad_def slash_not_quad AddressValueError_caught)
  next
    case False
    with a Some have "ip_int_from_string h = Inl e" by (simp add: IPv4Address_def)
    from ip_int_from_string_err [OF this] Some show ?thesis by (simp add: host_quad_def)
  qed
qed

lemma port_cases:
  "port u = Inr (Some n) \<Longrightarrow> n \<le> 65535"
  by (auto simp: port_def split: option.splits if_splits sum.splits)

subsection \<open>The validator on the specification's examples\<close>

lemmas char_defs = ord_def ascii_letter_def scheme_char_def lower_def lower_c_def digit_char_def
  isdigit_def isascii_def

lemma urlparse_ex1:
  "urlparse chk ''http://192.0.2.1:8080'' = Inr \<lparr>scheme = ''http'', netloc = ''192.0.2.1:8080''\<rparr>"
  by (simp add: urlparse_def urlsplit_def Let_def char_defs)

lemma hostinfo_ex1:
  "hostinfo \<lparr>scheme = s, netloc = ''192.0.2.1:8080''\<rparr> = (''192.0.2.1'', Some ''8080'')"
  by (simp add: hostinfo_def after_last_def str_partition_def Let_def)

lemma hostname_ex1: "hostname \<lparr>scheme = s, netloc = ''192.0.2.1:8080''\<rparr> = Some ''192.0.2.1''"
  by (simp add: hostname_def hostinfo_ex1 str_partition_def Let_def char_defs)

lemma port_ex1: "port \<lparr>scheme = s, netloc = ''192.0.2.1:8080''\<rparr> = Inr (Some 8080)"
  by (simp add: port_def hostinfo_ex1 py_int_def decimal_def char_defs)

lemma IPv4Address_ex1: "IPv4Address (Some ''192.0.2.1'') = Inr [192, 0, 2, 1]"
  by (simp add: IPv4Address_def ip_int_from_string_def parse_octet_def decimal_def char_defs)

lemma validate_ex1: "validate_proxy chk ''http://192.0.2.1:8080'' = Inr True"
  by (simp add: validate_proxy_def validate_try_def urlparse_ex1 hostname_ex1 port_ex1
        IPv4Address_ex1)

lemma urlparse_ex2:
  "urlparse chk ''ftp://1.2.3.4:80'' = Inr \<lparr>scheme = ''ftp'', netloc = ''1.2.3.4:80''\<rparr>"
  by (simp add: urlparse_def urlsplit_def Let_def char_defs)

lemma validate_ex2: "validate_proxy chk ''ftp://1.2.3.4:80'' = Inr False"
  by (simp add: validate_proxy_def validate_try_def urlparse_ex2)

lemma urlparse_ex3:
  "urlparse chk ''http://999.1.1.1:80'' = Inr \<lparr>scheme = ''http'', netloc = ''999.1.1.1:80''\<rparr>"
  by (simp add: urlparse_def urlsplit_def Let_def char_defs)

lemma hostname_ex3: "hostname \<lparr>scheme = s, netloc = ''999.1.1.1:80''\<rparr> = Some ''999.1.1.1''"
  by (simp add: hostname_def hostinfo_def after_last_def str_partition_def Let_def char_defs)

lemma IPv4Address_ex3:
  "IPv4Address (Some ''999.1.1.1'') = Inl (PyExc AddressValueError ''Invalid octet'')"
  by (simp add: IPv4Address_def ip_int_from_string_def parse_octet_def decimal_def char_defs
        ValueError_caught)

lemma validate_ex3: "validate_proxy chk ''http://999.1.1.1:80'' = Inr False"
  by (simp add: validate_proxy_def validate_try_def urlparse_ex3 hostname_ex3 IPv4Address_ex3
        AddressValueError_caught)

lemma IPv4Address_1234: "IPv4Address (Some ''1.2.3.4'') = Inr [1, 2, 3, 4]"
  by (simp add: IPv4Address_def ip_int_from_string_def parse_octet_def decimal_def char_defs)

lemma urlparse_ex4:
  "urlparse chk ''http://1.2.3.4:70000'' = Inr \<lparr>scheme = ''http'', netloc = ''1.2.3.4:70000''\<rparr>"
  by (simp add: urlparse_def urlsplit_def Let_def char_defs)

lemma hostinfo_ex4:
  "hostinfo \<lparr>scheme = s, netloc = ''1.2.3.4:70000''\<rparr> = (''1.2.3.4'', Some ''70000'')"
  by (simp add: hostinfo_def after_last_def str_partition_def Let_def)

lemma hostname_ex4: "hostname \<lparr>scheme = s, netloc = ''1.2.3.4:70000''\<rparr> = Some ''1.2.3.4''"
  by (simp add: hostname_def hostinfo_ex4 str_partition_def Let_def char_defs)

lemma port_ex4:
  "port \<lparr>scheme = s, netloc = ''1.2.3.4:70000''\<rparr>
     = Inl (PyExc ValueError ''Port out of range 0-65535'')"
  by (simp add: port_def hostinfo_ex4 py_int_def decimal_def char_defs)

lemma validate_ex4: "validate_proxy chk ''http://1.2.3.4:70000'' = Inr False"
  by (simp add: validate_proxy_def validate_try_def urlparse_ex4 hostname_ex4 port_ex4
        IPv4Address_1234 caught_by_Exception)

lemma urlparse_ex5:
  "urlparse chk ''http://1.2.3.4'' = Inr \<lparr>scheme = ''http'', netloc = ''1.2.3.4''\<rparr>"
  by (simp add: urlparse_def urlsplit_def Let_def char_defs)

lemma hostinfo_ex5: "hostinfo \<lparr>scheme = s, netloc = ''1.2.3.4''\<rparr> = (''1.2.3.4'', None)"
  by (simp add: hostinfo_def after_last_def str_partition_def Let_def)

lemma hostname_ex5: "hostname \<lparr>scheme = s, netloc = ''1.2.3.4''\<rparr> = Some ''1.2.3.4''"
  by (simp add: hostname_def hostinfo_ex5 str_partition_def Let_def char_defs)

lemma port_ex5: "port \<lparr>scheme = s, netloc = ''1.2.3.4''\<rparr> = Inr None"
  by (simp add: port_def hostinfo_ex5)

lemma validate_ex5: "validate_proxy chk ''http://1.2.3.4'' = Inr False"
  by (simp add: validate_proxy_def validate_try_def urlparse_ex5 hostname_ex5 port_ex5
        IPv4Address_1234)

lemma validate_proxy_spec: "validate_proxy chk a = Inr (spec_valid_address chk a)"
proof (cases "urlparse chk a")
  case (Inl e)
  then show ?thesis
    by (simp add: validate_proxy_def validate_try_def spec_valid_address_def caught_by_Exception)
next
  case (Inr u)
  show ?thesis
  proof (cases "IPv4Address (hostname u)")
    case (Inl e)
    from IPv4Address_err [OF this] Inr Inl show ?thesis
      by (simp add: validate_proxy_def validate_try_def spec_valid_address_def host_quad_def)
  next
    case ok: (Inr v)
    from IPv4Address_ok [OF this] have hq: "host_quad (hostname u)" .
    show ?thesis
    proof (cases "port u")
      case (Inl e)
      with Inr ok show ?thesis
        by (simp add: validate_proxy_def validate_try_def spec_valid_address_def
              caught_by_Exception)
    next
      case pr: (Inr p)
      show ?thesis
      proof (cases p)
        case None
        with Inr ok pr show ?thesis
          by (simp add: validate_proxy_def validate_try_def spec_valid_address_def)
      next
        case (Some n)
        with pr have "n \<le> 65535" by (simp add: port_cases)
        with Inr ok pr Some hq show ?thesis
          by (auto simp add: validate_proxy_def validate_try_def spec_valid_address_def
                host_quad_def)
      qed
    qed
  qed
qed

text \<open>
  C5.  On every address string the validator returns a verdict, never an exception,
  and the verdict is true exactly when the address parses with scheme http or https,
  a host that is an IPv4 dotted quad, and a port in 1..65535.
\<close>

theorem C5_validate_proxy_iff: "validate_proxy chk a = Inr (spec_valid_address chk a)"
  by (rule validate_proxy_spec)

theorem C5_validate_proxy_iff_witness:
  "spec_valid_address (\<lambda>n. True) ''http://192.0.2.1:8080''
   \<and> \<not> spec_valid_address (\<lambda>n. True) ''ftp://1.2.3.4:80''
   \<and> \<not> spec_valid_address (\<lambda>n. True) ''http://999.1.1.1:80''
   \<and> \<not> spec_valid_address (\<lambda>n. True) ''http://1.2.3.4:70000''
   \<and> \<not> spec_valid_address (\<lambda>n. True) ''http://1.2.3.4''"
  using C5_validate_proxy_iff [of "\<lambda>n. True" "''http://192.0.2.1:8080''"]
    C5_validate_proxy_iff [of "\<lambda>n. True" "''ftp://1.2.3.4:80''"]
    C5_validate_proxy_iff [of "\<lambda>n. True" "''http://999.1.1.1:80''"]
    C5_validate_proxy_iff [of "\<lambda>n. True" "''http://1.2.3.4:70000''"]
    C5_validate_proxy_iff [of "\<lambda>n. True" "''http://1.2.3.4''"]
  by (simp add: validate_ex1 validate_ex2 validate_ex3 validate_ex4 validate_ex5)

subsection \<open>Pool construction, remote provider, shutdown\<close>

lemma load_debug: "load_global ''debug'' = Inl (PyExc NameError ''debug'')"
  by (simp add: load_global_def module_globals_def)

text \<open>
  C3.  When proxies are enabled in the configuration, constructing the pool raises
  NameError for the global name \<open>debug\<close> with the pool as the attribute assignments left
  it: no provider installed, no preload task started.
\<close>

theorem C3_enabled_pool_raises_NameError:
  assumes "enable (proxy_config cfg)"
  shows "ProxyPool_init cfg = (Inl (PyExc NameError ''debug''), new_pool cfg)
         \<and> providers (snd (ProxyPool_init cfg)) = []
         \<and> preload_task (snd (ProxyPool_init cfg)) = None"
proof -
  have "app_conf (new_pool cfg) = cfg" by (simp add: new_pool_def)
  with assms have "ProxyPool_init cfg = (Inl (PyExc NameError ''debug''), new_pool cfg)"
    by (simp add: ProxyPool_init_def init_providers_def load_debug)
  then show ?thesis by (simp add: new_pool_def)
qed

text \<open>
  C9.  A call of the remote provider sends exactly one GET.  A response gives
  \<open>http://\<close> followed by the stripped body; an exception from the GET is logged and
  gives None; no exception leaves the call.
\<close>

theorem C9_remote_get_proxy:
  "(net w (length (gets w)) (get_proxy_link cfg) = Body t \<longrightarrow>
      get_proxy (RemoteProxyProvider cfg) w
        = (Inr (Some (''http://'' @ strip t)), w\<lparr>gets := gets w @ [get_proxy_link cfg]\<rparr>))
   \<and> (net w (length (gets w)) (get_proxy_link cfg) = Fails e \<longrightarrow>
      get_proxy (RemoteProxyProvider cfg) w
        = (Inr None, logger ERROR ''get proxy failed'' (w\<lparr>gets := gets w @ [get_proxy_link cfg]\<rparr>)))
   \<and> (\<exists>r. fst (get_proxy (RemoteProxyProvider cfg) w) = Inr r)
   \<and> gets (snd (get_proxy (RemoteProxyProvider cfg) w)) = gets w @ [get_proxy_link cfg]"
  by (cases "net w (length (gets w)) (get_proxy_link cfg)")
     (simp_all add: Let_def caught_by_Exception logger_def)



subsection \<open>get_next_proxy\<close>

lemma get_proxy_total: "get_proxy p w = (Inr (answer p w), snd (get_proxy p w))"
proof (cases p)
  case (DebugProxyProvider x)
  then show ?thesis by (simp add: answer_def)
next
  case (RemoteProxyProvider cfg)
  then show ?thesis
    by (cases "net w (length (gets w)) (get_proxy_link cfg)")
       (simp_all add: answer_def Let_def caught_by_Exception)
qed

lemma get_proxy_noted:
  "get_proxy p (note_call p l w) = (Inr (answer p (note_call p l w)), ask p l w)"
  unfolding ask_def by (rule get_proxy_total)

lemma asked_get_proxy: "asked (snd (get_proxy p w)) = asked w"
proof (cases p)
  case (DebugProxyProvider x)
  then show ?thesis by simp
next
  case (RemoteProxyProvider cfg)
  then show ?thesis
    by (cases "net w (length (gets w)) (get_proxy_link cfg)")
       (simp_all add: Let_def logger_def)
qed

lemma asked_ask: "asked (ask p l w) = asked w @ [(p, l)]"
  by (simp add: ask_def asked_get_proxy note_call_def)

lemma fallback_scan_char:
  "fst (fallback_scan ps s w) = Inr (first_truthy (answers ps (lock s) w))
   \<and> asked (snd (snd (fallback_scan ps s w)))
       = asked w @ map (\<lambda>p. (p, lock s)) (take (upto_first truthy (answers ps (lock s) w)) ps)
   \<and> lock (fst (snd (fallback_scan ps s w))) = lock s
   \<and> proxy_queue (fst (snd (fallback_scan ps s w))) = proxy_queue s"
proof (induction ps arbitrary: w)
  case Nil
  show ?case by (simp add: first_truthy_def)
next
  case (Cons p ps)
  show ?case
  proof (cases "truthy (answer p (note_call p (lock s) w))")
    case True
    then show ?thesis by (simp add: get_proxy_noted first_truthy_def asked_ask)
  next
    case False
    with Cons [of "ask p (lock s) w"] show ?thesis
      by (simp add: get_proxy_noted first_truthy_def asked_ask)
  qed
qed

lemma first_truthy_None: "first_truthy as = None \<longleftrightarrow> (\<forall>a \<in> set as. \<not> truthy a)"
proof (induction as)
  case Nil
  show ?case by (simp add: first_truthy_def)
next
  case (Cons a as)
  then show ?case by (cases a) (auto simp: first_truthy_def truthy_def)
qed

lemma QueueEmpty_caught: "caught_by [QueueEmpty] (PyExc QueueEmpty m)"
  by (simp add: caught_by_def issubclass_refl)

text \<open>
  C6.  With an address in the buffer, \<open>get_next_proxy\<close> returns it and calls no
  provider.  With the buffer empty it calls the providers in order with the lock held,
  stops at the first that yields a non-empty address, returns that address as it is,
  and releases the lock.  It returns None exactly when the buffer is empty and no
  provider yields a non-empty address.
\<close>

theorem C6_get_next_proxy:
  "(items (proxy_queue s) = x # rest \<longrightarrow>
      get_next_proxy s w
        = (Inr (Some x), s\<lparr>proxy_queue := (proxy_queue s)\<lparr>items := rest\<rparr>,
                             current_proxy := Some x\<rparr>, w))
   \<and> (items (proxy_queue s) = [] \<longrightarrow>
        fst (get_next_proxy s w) = Inr (first_truthy (answers (providers s) True w))
        \<and> asked (snd (snd (get_next_proxy s w)))
            = asked w @ map (\<lambda>p. (p, True))
                (take (upto_first truthy (answers (providers s) True w)) (providers s))
        \<and> lock (fst (snd (get_next_proxy s w))) = False)
   \<and> (fst (get_next_proxy s w) = Inr None \<longleftrightarrow>
        items (proxy_queue s) = [] \<and> (\<forall>a \<in> set (answers (providers s) True w). \<not> truthy a))"
proof (cases "items (proxy_queue s)")
  case Nil
  obtain r s' w' where f: "fallback_scan (providers s) (s\<lparr>lock := True\<rparr>) w = (r, s', w')"
    by (cases "fallback_scan (providers s) (s\<lparr>lock := True\<rparr>) w") auto
  from fallback_scan_char [of "providers s" "s\<lparr>lock := True\<rparr>" w] f
  have c: "r = Inr (first_truthy (answers (providers s) True w))"
    "asked w' = asked w @ map (\<lambda>p. (p, True))
                (take (upto_first truthy (answers (providers s) True w)) (providers s))"
    by simp_all
  from Nil f have g: "get_next_proxy s w = (r, s'\<lparr>lock := False\<rparr>, w')"
    by (simp add: get_next_proxy_def get_nowait_def QueueEmpty_caught)
  show ?thesis using Nil g c by (simp add: first_truthy_None)
next
  case (Cons y ys)
  then show ?thesis by (simp add: get_next_proxy_def get_nowait_def)
qed

subsection \<open>The provider scan of the preload worker\<close>

lemma QueueFull_caught: "caught_by [QueueFull] (PyExc QueueFull m)"
  by (simp add: caught_by_def issubclass_refl)

lemma scan_step:
  "\<not> stop_event s \<Longrightarrow>
   scan chk (p # ps) wt s w =
     (let a = answer p (note_call p (lock s) w); w' = ask p (lock s) w
      in if acceptable chk a then
           (if full (proxy_queue s)
            then (Normal wt, s, logger WARNING ''proxy queue full'' w')
            else scan chk ps 0
                   (s\<lparr>proxy_queue := (proxy_queue s)\<lparr>items := items (proxy_queue s) @ [the a]\<rparr>\<rparr>) w')
         else scan chk ps wt (s\<lparr>invalid_proxy_count := invalid_proxy_count s + 1\<rparr>) w')"
  by (simp add: get_proxy_noted acceptable_def validate_proxy_spec put_nowait_def
        QueueFull_caught Let_def)

declare scan.simps(2) [simp del]

lemma flags_Nil: "flags chk [] l w = []"
  by (simp add: flags_def)

lemma flags_Cons:
  "flags chk (p # ps) l w = acceptable chk (answer p (note_call p l w)) # flags chk ps l (ask p l w)"
  by (simp add: flags_def)

lemma asked_logger: "asked (logger lv m w) = asked w"
  by (simp add: logger_def)

lemma scan_full:
  "\<not> stop_event s \<Longrightarrow> full (proxy_queue s) \<Longrightarrow>
   fst (scan chk ps wt s w) = Normal wt
   \<and> proxy_queue (fst (snd (scan chk ps wt s w))) = proxy_queue s
   \<and> invalid_proxy_count (fst (snd (scan chk ps wt s w)))
       = invalid_proxy_count s + length (takeWhile Not (flags chk ps (lock s) w))
   \<and> asked (snd (snd (scan chk ps wt s w)))
       = asked w @ map (\<lambda>p. (p, lock s)) (take (upto_first id (flags chk ps (lock s) w)) ps)"
proof (induction ps arbitrary: s w)
  case Nil
  show ?case by (simp add: flags_Nil)
next
  case (Cons p ps)
  show ?case
  proof (cases "acceptable chk (answer p (note_call p (lock s) w))")
    case True
    with Cons.prems show ?thesis
      by (simp add: scan_step flags_Cons asked_logger asked_ask)
  next
    case False
    let ?s = "s\<lparr>invalid_proxy_count := invalid_proxy_count s + 1\<rparr>"
    have "\<not> stop_event ?s" "full (proxy_queue ?s)" using Cons.prems by simp_all
    from Cons.IH [OF this, of "ask p (lock s) w"] False Cons.prems show ?thesis
      by (simp add: scan_step flags_Cons asked_ask)
  qed
qed

lemma asked_count_Nil: "asked_count [] = 0"
  by (simp add: asked_count_def)

lemma asked_count_True: "asked_count (True # bs) = Suc (upto_first id bs)"
  by (simp add: asked_count_def)

lemma asked_count_False: "asked_count (False # bs) = Suc (asked_count bs)"
  by (simp add: asked_count_def)

lemma rejected_before_first:
  "length (filter Not (take (upto_first id bs) bs)) = length (takeWhile Not bs)"
  by (induction bs) auto

lemma scan_empty:
  "\<not> stop_event s \<Longrightarrow> maxsize (proxy_queue s) = 1 \<Longrightarrow> items (proxy_queue s) = [] \<Longrightarrow>
   fst (scan chk ps wt s w) = Normal (if True \<in> set (flags chk ps (lock s) w) then 0 else wt)
   \<and> items (proxy_queue (fst (snd (scan chk ps wt s w))))
       = (case filter (acceptable chk) (answers ps (lock s) w) of [] \<Rightarrow> [] | a # r \<Rightarrow> [the a])
   \<and> invalid_proxy_count (fst (snd (scan chk ps wt s w)))
       = invalid_proxy_count s
         + length (filter Not (take (asked_count (flags chk ps (lock s) w)) (flags chk ps (lock s) w)))
   \<and> asked (snd (snd (scan chk ps wt s w)))
       = asked w @ map (\<lambda>p. (p, lock s)) (take (asked_count (flags chk ps (lock s) w)) ps)"
proof (induction ps arbitrary: s w)
  case Nil
  then show ?case by (simp add: flags_Nil asked_count_Nil)
next
  case (Cons p ps)
  let ?a = "answer p (note_call p (lock s) w)"
  let ?w = "ask p (lock s) w"
  have nf: "\<not> full (proxy_queue s)" using Cons.prems by (simp add: full_def qsize_def)
  show ?case
  proof (cases "acceptable chk ?a")
    case True
    let ?s = "s\<lparr>proxy_queue := (proxy_queue s)\<lparr>items := items (proxy_queue s) @ [the ?a]\<rparr>\<rparr>"
    have "\<not> stop_event ?s" "full (proxy_queue ?s)"
      using Cons.prems by (simp_all add: full_def qsize_def)
    from scan_full [OF this, of chk ps 0 ?w] True Cons.prems nf show ?thesis
      by (simp add: scan_step flags_Cons asked_ask asked_count_True rejected_before_first)
  next
    case False
    let ?s = "s\<lparr>invalid_proxy_count := invalid_proxy_count s + 1\<rparr>"
    have "\<not> stop_event ?s" "maxsize (proxy_queue ?s) = 1" "items (proxy_queue ?s) = []"
      using Cons.prems by simp_all
    from Cons.IH [OF this, of ?w] False Cons.prems show ?thesis
      by (simp add: scan_step flags_Cons asked_ask asked_count_False)
  qed
qed


subsection \<open>Instances\<close>

theorem C3_enabled_pool_raises_NameError_witness:
  "enable (proxy_config ex_cfg)
   \<and> ProxyPool_init ex_cfg = (Inl (PyExc NameError ''debug''), new_pool ex_cfg)
   \<and> providers (snd (ProxyPool_init ex_cfg)) = []
   \<and> preload_task (snd (ProxyPool_init ex_cfg)) = None"
proof -
  have h: "enable (proxy_config ex_cfg)" by (simp add: ex_cfg_def)
  from C3_enabled_pool_raises_NameError [OF h] h show ?thesis by blast
qed

lemma strip_ex: "strip '' 1.2.3.4:80 '' = ''1.2.3.4:80''"
  by (simp add: strip_def space_char_def ord_def)

theorem C9_remote_get_proxy_witness:
  "get_proxy (RemoteProxyProvider ex_platform) ex_world
     = (Inr (Some ''http://1.2.3.4:80''), ex_world\<lparr>gets := [''http://api.example/get'']\<rparr>)
   \<and> get_proxy (RemoteProxyProvider ex_platform) ex_down
     = (Inr None, ex_down\<lparr>gets := [''http://api.example/get''],
                          logged := [Log ERROR ''get proxy failed'']\<rparr>)"
proof -
  have a: "net ex_world (length (gets ex_world)) (get_proxy_link ex_platform) = Body '' 1.2.3.4:80 ''"
    by (simp add: ex_world_def)
  have b: "net ex_down (length (gets ex_down)) (get_proxy_link ex_platform)
             = Fails (PyExc ConnectError ''unreachable'')"
    by (simp add: ex_down_def)
  from C9_remote_get_proxy [of ex_world ex_platform "'' 1.2.3.4:80 ''"] a
  have 1: "get_proxy (RemoteProxyProvider ex_platform) ex_world
     = (Inr (Some (''http://'' @ strip '' 1.2.3.4:80 '')),
        ex_world\<lparr>gets := gets ex_world @ [get_proxy_link ex_platform]\<rparr>)" by blast
  from C9_remote_get_proxy [of ex_down ex_platform _ "PyExc ConnectError ''unreachable''"] b
  have 2: "get_proxy (RemoteProxyProvider ex_platform) ex_down
     = (Inr None, logger ERROR ''get proxy failed''
          (ex_down\<lparr>gets := gets ex_down @ [get_proxy_link ex_platform]\<rparr>))" by blast
  show ?thesis
    unfolding 1 2 by (simp add: strip_ex ex_world_def ex_down_def ex_platform_def logger_def)
qed


lemma urlparse_socks:
  "urlparse chk ''socks5://nowhere'' = Inr \<lparr>scheme = ''socks5'', netloc = ''nowhere''\<rparr>"
  by (simp add: urlparse_def urlsplit_def Let_def char_defs)

lemma validate_socks: "validate_proxy chk ''socks5://nowhere'' = Inr False"
  by (simp add: validate_proxy_def validate_try_def urlparse_socks)

theorem C6_get_next_proxy_witness:
  "fst (get_next_proxy
          (ex_pool\<lparr>providers := [RemoteProxyProvider ex_platform,
                                  DebugProxyProvider ''socks5://nowhere'',
                                  DebugProxyProvider ''http://192.0.2.1:8080'']\<rparr>) ex_down)
     = Inr (Some ''socks5://nowhere'')
   \<and> validate_proxy (\<lambda>n. True) ''socks5://nowhere'' = Inr False
   \<and> asked (snd (snd (get_next_proxy
          (ex_pool\<lparr>providers := [RemoteProxyProvider ex_platform,
                                  DebugProxyProvider ''socks5://nowhere'',
                                  DebugProxyProvider ''http://192.0.2.1:8080'']\<rparr>) ex_down)))
     = [(RemoteProxyProvider ex_platform, True), (DebugProxyProvider ''socks5://nowhere'', True)]
   \<and> get_next_proxy (ex_pool\<lparr>proxy_queue := \<lparr>maxsize = 1, items = [''http://192.0.2.1:8080'']\<rparr>\<rparr>)
         ex_down
     = (Inr (Some ''http://192.0.2.1:8080''),
        ex_pool\<lparr>proxy_queue := \<lparr>maxsize = 1, items = []\<rparr>,
                current_proxy := Some ''http://192.0.2.1:8080''\<rparr>, ex_down)"
proof -
  let ?ps = "[RemoteProxyProvider ex_platform, DebugProxyProvider ''socks5://nowhere'',
              DebugProxyProvider ''http://192.0.2.1:8080'']"
  let ?s = "ex_pool\<lparr>providers := ?ps\<rparr>"
  let ?t = "ex_pool\<lparr>proxy_queue := \<lparr>maxsize = 1, items = [''http://192.0.2.1:8080'']\<rparr>\<rparr>"
  have e: "items (proxy_queue ?s) = []" by (simp add: ex_pool_def new_pool_def Queue_def)
  have p: "providers ?s = ?ps" by simp
  have a: "answers ?ps True ex_down
             = [None, Some ''socks5://nowhere'', Some ''http://192.0.2.1:8080'']"
    by (simp add: answer_def ask_def note_call_def ex_down_def ex_world_def Let_def
          caught_by_Exception logger_def)
  from C6_get_next_proxy [of ?s _ _ ex_down] e
  have "fst (get_next_proxy ?s ex_down) = Inr (first_truthy (answers (providers ?s) True ex_down))"
    and "asked (snd (snd (get_next_proxy ?s ex_down)))
            = asked ex_down @ map (\<lambda>p. (p, True))
                (take (upto_first truthy (answers (providers ?s) True ex_down)) (providers ?s))"
    by blast+
  then have 1: "fst (get_next_proxy ?s ex_down) = Inr (Some ''socks5://nowhere'')"
    and 2: "asked (snd (snd (get_next_proxy ?s ex_down)))
       = [(RemoteProxyProvider ex_platform, True), (DebugProxyProvider ''socks5://nowhere'', True)]"
    unfolding p a by (simp_all add: first_truthy_def truthy_def ex_down_def ex_world_def)
  have i: "items (proxy_queue ?t) = ''http://192.0.2.1:8080'' # []" by simp
  from C6_get_next_proxy [of ?t "''http://192.0.2.1:8080''" "[]" ex_down] i
  have "get_next_proxy ?t ex_down
        = (Inr (Some ''http://192.0.2.1:8080''),
           ?t\<lparr>proxy_queue := (proxy_queue ?t)\<lparr>items := []\<rparr>,
               current_proxy := Some ''http://192.0.2.1:8080''\<rparr>, ex_down)" by blast
  then have 3: "get_next_proxy ?t ex_down
     = (Inr (Some ''http://192.0.2.1:8080''),
        ex_pool\<lparr>proxy_queue := \<lparr>maxsize = 1, items = []\<rparr>,
                current_proxy := Some ''http://192.0.2.1:8080''\<rparr>, ex_down)" by simp
  from 1 2 3 validate_socks show ?thesis by blast
qed

lemma scan_keeps_stop: "stop_event (fst (snd (scan chk ps wt s w))) = stop_event s"
proof (induction ps arbitrary: wt s w)
  case Nil
  show ?case by simp
next
  case (Cons p ps)
  show ?case
  proof (cases "stop_event s")
    case True
    then show ?thesis by (simp add: scan.simps(2))
  next
    case False
    then show ?thesis by (simp add: scan_step Let_def Cons)
  qed
qed

text \<open>
  C2, as amended.  In a pass that starts with the stop signal unset and the buffer
  empty, and that no other task interferes with, the worker calls the providers in
  order, up to and including the second one whose candidate is acceptable (all of
  them when fewer than two are).  The first acceptable candidate is put into the
  buffer and the next sleep is zero; the scan goes on to the next provider after that
  put, and ends early only when a later acceptable candidate finds the buffer full.
  Every candidate looked at that is absent, empty or rejected by the validator adds
  one to the invalid-address counter, and the scan goes on.  Without an acceptable
  candidate the next sleep is the base cooldown.
\<close>

theorem C2_scan_continues_after_put:
  assumes "\<not> stop_event s" and "maxsize (proxy_queue s) = 1" and "items (proxy_queue s) = []"
  shows "fst (preload_pass chk s w)
           = Sleep (if True \<in> set (flags chk (providers s) True w) then 0 else cooldown_time s)
         \<and> items (proxy_queue (fst (snd (preload_pass chk s w))))
           = (case filter (acceptable chk) (answers (providers s) True w) of
                [] \<Rightarrow> [] | a # r \<Rightarrow> [the a])
         \<and> invalid_proxy_count (fst (snd (preload_pass chk s w)))
           = invalid_proxy_count s
             + length (filter Not (take (asked_count (flags chk (providers s) True w))
                                        (flags chk (providers s) True w)))
         \<and> asked (snd (snd (preload_pass chk s w)))
           = asked w @ map (\<lambda>p. (p, True))
               (take (asked_count (flags chk (providers s) True w)) (providers s))"
proof -
  let ?s = "s\<lparr>lock := True\<rparr>"
  obtain r s' w' where sc: "scan chk (providers s) (cooldown_time s) ?s w = (r, s', w')"
    by (cases "scan chk (providers s) (cooldown_time s) ?s w") auto
  have h: "\<not> stop_event ?s" "maxsize (proxy_queue ?s) = 1" "items (proxy_queue ?s) = []"
    using assms by simp_all
  from scan_empty [OF h, of chk "providers s" "cooldown_time s" w] sc
  have r: "r = Normal (if True \<in> set (flags chk (providers s) True w) then 0 else cooldown_time s)"
    and q: "items (proxy_queue s')
           = (case filter (acceptable chk) (answers (providers s) True w) of
                [] \<Rightarrow> [] | a # r \<Rightarrow> [the a])"
    and c: "invalid_proxy_count s'
           = invalid_proxy_count s
             + length (filter Not (take (asked_count (flags chk (providers s) True w))
                                        (flags chk (providers s) True w)))"
    and a: "asked w'
           = asked w @ map (\<lambda>p. (p, True))
               (take (asked_count (flags chk (providers s) True w)) (providers s))"
    by simp_all
  from scan_keeps_stop [of chk "providers s" "cooldown_time s" ?s w] sc assms(1)
  have st: "\<not> stop_event s'" by simp
  have nf: "\<not> full (proxy_queue s)" using assms by (simp add: full_def qsize_def)
  have "preload_pass chk s w = (Sleep (if True \<in> set (flags chk (providers s) True w) then 0 else cooldown_time s),
          s'\<lparr>lock := False\<rparr>, w')"
    using assms(1) nf sc r st by (simp add: preload_pass_def Let_def)
  with q c a show ?thesis by simp
qed

lemma urlparse_1234:
  "urlparse chk ''http://1.2.3.4:80'' = Inr \<lparr>scheme = ''http'', netloc = ''1.2.3.4:80''\<rparr>"
  by (simp add: urlparse_def urlsplit_def Let_def char_defs)

lemma hostinfo_1234: "hostinfo \<lparr>scheme = s, netloc = ''1.2.3.4:80''\<rparr> = (''1.2.3.4'', Some ''80'')"
  by (simp add: hostinfo_def after_last_def str_partition_def Let_def)

lemma hostname_1234: "hostname \<lparr>scheme = s, netloc = ''1.2.3.4:80''\<rparr> = Some ''1.2.3.4''"
  by (simp add: hostname_def hostinfo_1234 str_partition_def Let_def char_defs)

lemma port_1234: "port \<lparr>scheme = s, netloc = ''1.2.3.4:80''\<rparr> = Inr (Some 80)"
  by (simp add: port_def hostinfo_1234 py_int_def decimal_def char_defs)

lemma validate_1234: "validate_proxy chk ''http://1.2.3.4:80'' = Inr True"
  by (simp add: validate_proxy_def validate_try_def urlparse_1234 hostname_1234 port_1234
        IPv4Address_1234)

text \<open>
  C2 as stated fails: with a fixed-address provider followed by a remote one, the
  first provider's address is put into the empty buffer, and the remote provider is
  still called in the same pass (its GET is sent, and its address is dropped).
\<close>

theorem C2_second_provider_contacted:
  "preload_pass (\<lambda>n. True) ex_pool ex_world
     = (Sleep 0,
        ex_pool\<lparr>proxy_queue := \<lparr>maxsize = 1, items = [''http://192.0.2.1:8080'']\<rparr>\<rparr>,
        ex_world\<lparr>gets := [''http://api.example/get''],
                  logged := [Log WARNING ''proxy queue full''],
                  asked := [(DebugProxyProvider ''http://192.0.2.1:8080'', True),
                            (RemoteProxyProvider ex_platform, True)]\<rparr>)"
  by (simp add: preload_pass_def ex_pool_def new_pool_def Queue_def full_def qsize_def
        scan.simps(2) note_call_def ex_world_def ex_platform_def Let_def truthy_def strip_ex
        validate_ex1 validate_1234 put_nowait_def QueueFull_caught logger_def)

theorem C2_scan_continues_after_put_witness:
  "\<not> stop_event ex_pool \<and> maxsize (proxy_queue ex_pool) = 1 \<and> items (proxy_queue ex_pool) = []
   \<and> flags (\<lambda>n. True) (providers ex_pool) True ex_world = [True, True]
   \<and> fst (preload_pass (\<lambda>n. True) ex_pool ex_world) = Sleep 0
   \<and> invalid_proxy_count (fst (snd (preload_pass (\<lambda>n. True) ex_pool ex_world))) = 0
   \<and> asked (snd (snd (preload_pass (\<lambda>n. True) ex_pool ex_world)))
       = [(DebugProxyProvider ''http://192.0.2.1:8080'', True),
          (RemoteProxyProvider ex_platform, True)]"
proof -
  have h: "\<not> stop_event ex_pool" "maxsize (proxy_queue ex_pool) = 1"
    "items (proxy_queue ex_pool) = []"
    by (simp_all add: ex_pool_def new_pool_def Queue_def)
  have p: "providers ex_pool = [DebugProxyProvider ''http://192.0.2.1:8080'',
                                RemoteProxyProvider ex_platform]"
    by (simp add: ex_pool_def)
  have a: "answers (providers ex_pool) True ex_world
             = [Some ''http://192.0.2.1:8080'', Some ''http://1.2.3.4:80'']"
    unfolding p
    by (simp add: answer_def ask_def note_call_def ex_world_def Let_def strip_ex)
  have f: "flags (\<lambda>n. True) (providers ex_pool) True ex_world = [True, True]"
    unfolding flags_def a by (simp add: acceptable_def truthy_def validate_ex1 validate_1234)
  from C2_scan_continues_after_put [OF h, of "\<lambda>n. True" ex_world]
  show ?thesis
    unfolding f using h
    by (simp add: asked_count_def p ex_world_def ex_pool_def new_pool_def)
qed

subsection \<open>The retry loop of the executor\<close>

lemma get_proxy_frame:
  "server (snd (get_proxy p w)) = server w \<and> sent (snd (get_proxy p w)) = sent w"
proof (cases p)
  case (DebugProxyProvider x)
  then show ?thesis by simp
next
  case (RemoteProxyProvider cfg)
  then show ?thesis
    by (cases "net w (length (gets w)) (get_proxy_link cfg)") (simp_all add: Let_def logger_def)
qed

lemma ask_frame: "server (ask p l w) = server w \<and> sent (ask p l w) = sent w"
  using get_proxy_frame [of p "note_call p l w"] by (simp add: ask_def note_call_def)

lemma fallback_scan_frame:
  "server (snd (snd (fallback_scan ps s w))) = server w
   \<and> sent (snd (snd (fallback_scan ps s w))) = sent w"
proof (induction ps arbitrary: w)
  case Nil
  show ?case by simp
next
  case (Cons p ps)
  show ?case
    using Cons [of "ask p (lock s) w"] ask_frame [of p "lock s" w]
    by (simp add: get_proxy_noted)
qed

lemma get_next_proxy_Inr:
  "\<exists>a. fst (get_next_proxy s w) = Inr a"
proof (cases "items (proxy_queue s)")
  case Nil
  obtain r s' w' where f: "fallback_scan (providers s) (s\<lparr>lock := True\<rparr>) w = (r, s', w')"
    by (cases "fallback_scan (providers s) (s\<lparr>lock := True\<rparr>) w") auto
  from fallback_scan_char [of "providers s" "s\<lparr>lock := True\<rparr>" w] f
  have "\<exists>a. r = Inr a" by simp
  with Nil f show ?thesis by (auto simp: get_next_proxy_def get_nowait_def QueueEmpty_caught)
next
  case (Cons y ys)
  then show ?thesis by (simp add: get_next_proxy_def get_nowait_def)
qed

lemma get_next_proxy_frame:
  "server (snd (snd (get_next_proxy s w))) = server w
   \<and> sent (snd (snd (get_next_proxy s w))) = sent w"
proof (cases "items (proxy_queue s)")
  case Nil
  obtain r s' w' where f: "fallback_scan (providers s) (s\<lparr>lock := True\<rparr>) w = (r, s', w')"
    by (cases "fallback_scan (providers s) (s\<lparr>lock := True\<rparr>) w") auto
  from fallback_scan_frame [of "providers s" "s\<lparr>lock := True\<rparr>" w] f
  have "server w' = server w \<and> sent w' = sent w" by simp
  with Nil f show ?thesis by (simp add: get_next_proxy_def get_nowait_def QueueEmpty_caught)
next
  case (Cons y ys)
  then show ?thesis by (simp add: get_next_proxy_def get_nowait_def)
qed

lemma get_next_proxy_eq:
  "get_next_proxy s w = (Inr (gnp_addr s w), gnp_pool s w, gnp_world s w)"
proof -
  from get_next_proxy_Inr [of s w] obtain a where "fst (get_next_proxy s w) = Inr a" ..
  then show ?thesis by (simp add: gnp_addr_def gnp_pool_def gnp_world_def prod_eq_iff)
qed

lemma gnp_world_frame: "server (gnp_world s w) = server w \<and> sent (gnp_world s w) = sent w"
  using get_next_proxy_frame [of s w] by (simp add: gnp_world_def)

lemma pool_next_eq:
  "pool_next c w = (Inr (gnp_addr (proxy_pool c) w),
                    c\<lparr>proxy_pool := gnp_pool (proxy_pool c) w,
                      fetched := fetched c @ [gnp_addr (proxy_pool c) w]\<rparr>,
                    gnp_world (proxy_pool c) w)"
  by (simp add: pool_next_def get_next_proxy_eq)

lemma create_http_client_eq:
  "cache_data c = Some jar \<Longrightarrow>
   create_http_client c w =
     (Inr \<lparr>via = gnp_addr (proxy_pool c) w, closed = False\<rparr>,
      c\<lparr>proxy_pool := gnp_pool (proxy_pool c) w,
        fetched := fetched c @ [gnp_addr (proxy_pool c) w],
        client_proxy := gnp_addr (proxy_pool c) w\<rparr>,
      gnp_world (proxy_pool c) w)"
  by (simp add: create_http_client_def pool_next_eq Let_def)

lemma refresh_client_eq:
  "cache_data c = Some jar \<Longrightarrow>
   refresh_client c w =
     (Inr (),
      c\<lparr>proxy_pool := gnp_pool (proxy_pool c) w,
        fetched := fetched c @ [gnp_addr (proxy_pool c) w],
        client_proxy := gnp_addr (proxy_pool c) w,
        async_client := Some \<lparr>via = gnp_addr (proxy_pool c) w, closed = False\<rparr>\<rparr>,
      gnp_world (proxy_pool c) w)"
  by (cases "async_client c") (simp_all add: refresh_client_def create_http_client_eq Let_def)

lemma on_failure_eq:
  assumes "cache_data c = Some jar"
  shows "on_failure c w =
     (let w0 = logger WARNING ''request failed'' w;
          a1 = gnp_addr (proxy_pool c) w0;
          p1 = gnp_pool (proxy_pool c) w0;
          w1 = gnp_world (proxy_pool c) w0;
          a2 = gnp_addr p1 w1
      in (Inr (),
          c\<lparr>proxy_pool := gnp_pool p1 w1,
            fetched := fetched c @ [a1, a2],
            client_proxy := a2,
            async_client := Some \<lparr>via = a2, closed = False\<rparr>\<rparr>,
          gnp_world p1 w1))"
proof -
  let ?w0 = "logger WARNING ''request failed'' w"
  let ?c1 = "c\<lparr>proxy_pool := gnp_pool (proxy_pool c) ?w0,
                fetched := fetched c @ [gnp_addr (proxy_pool c) ?w0]\<rparr>"
  have "cache_data ?c1 = Some jar" using assms by simp
  from refresh_client_eq [OF this] show ?thesis
    by (simp add: on_failure_def pool_next_eq Let_def)
qed

lemma logger_frame: "server (logger lv m w) = server w \<and> sent (logger lv m w) = sent w"
  by (simp add: logger_def)

lemma get_http_client_ok:
  assumes "cache_data c = Some jar"
  shows "\<exists>t c1 w1. get_http_client c w = (Inr t, c1, w1) \<and> async_client c1 = Some t
           \<and> cache_data c1 = Some jar \<and> retries_max c1 = retries_max c
           \<and> retry_exceptions c1 = retry_exceptions c
           \<and> retry_status_codes c1 = retry_status_codes c
           \<and> server w1 = server w \<and> sent w1 = sent w"
proof (cases "async_client c")
  case None
  with assms show ?thesis
    by (simp add: get_http_client_def create_http_client_eq [OF assms] gnp_world_frame)
next
  case (Some t)
  with assms show ?thesis by (simp add: get_http_client_def)
qed

lemma attempt_ok:
  assumes "cache_data c = Some jar"
  shows "\<exists>t c1 w1. attempt c w =
             (verdict c (server w (length (sent w)) (via t)), c1, w1)
           \<and> async_client c1 = Some t
           \<and> cache_data c1 = Some jar \<and> retries_max c1 = retries_max c
           \<and> retry_exceptions c1 = retry_exceptions c
           \<and> retry_status_codes c1 = retry_status_codes c
           \<and> server w1 = server w \<and> sent w1 = sent w @ [via t]"
proof -
  from get_http_client_ok [OF assms, of w] obtain t c1 w1 where
    g: "get_http_client c w = (Inr t, c1, w1)" and k: "async_client c1 = Some t"
    "cache_data c1 = Some jar" "retries_max c1 = retries_max c"
    "retry_exceptions c1 = retry_exceptions c" "retry_status_codes c1 = retry_status_codes c"
    "server w1 = server w" "sent w1 = sent w" by blast
  show ?thesis
    apply (rule exI [of _ t], rule exI [of _ c1], rule exI [of _ "w1\<lparr>sent := sent w1 @ [via t]\<rparr>"])
    using g k by (simp add: attempt_def verdict_def Let_def split: http_result.splits)
qed

lemma on_failure_ok:
  assumes "cache_data c = Some jar"
  shows "\<exists>c2 w2. on_failure c w = (Inr (), c2, w2)
           \<and> cache_data c2 = Some jar \<and> retries_max c2 = retries_max c
           \<and> retry_exceptions c2 = retry_exceptions c
           \<and> retry_status_codes c2 = retry_status_codes c
           \<and> server w2 = server w \<and> sent w2 = sent w"
  using assms by (simp add: on_failure_eq [OF assms] Let_def gnp_world_frame logger_frame)

lemma retryable_raises: "retryable c h \<Longrightarrow> verdict c h = Inl (exc_of h)"
  by (cases h) (simp_all add: retryable_def exc_of_def verdict_def)

lemma retryable_same:
  "retry_exceptions c' = retry_exceptions c \<Longrightarrow> retry_status_codes c' = retry_status_codes c
   \<Longrightarrow> retryable c' h = retryable c h"
  by (cases h) (simp_all add: retryable_def)

lemma loop_all_fail:
  "n = nat (retries_max c - retries) \<Longrightarrow> cache_data c = Some jar \<Longrightarrow>
   retries \<le> retries_max c \<Longrightarrow> (\<forall>k p. retryable c (server w k p)) \<Longrightarrow>
   \<exists>c' w'. retry_loop retries c w
             = (Inl (exc_of (server w (length (sent w') - 1) (last (sent w')))), c', w')
          \<and> length (sent w) < length (sent w')
          \<and> int (length (sent w')) \<le> int (length (sent w)) + (retries_max c - retries + 1)"
proof (induction n arbitrary: retries c w)
  case 0
  then have last_round: "retries + 1 > retries_max c" by simp
  from attempt_ok [OF 0(2), of w] obtain t :: transport and c1 w1 where
    a: "attempt c w =
             (verdict c (server w (length (sent w)) (via t)), c1, w1)"
    and k: "cache_data c1 = Some jar" "retries_max c1 = retries_max c"
    "server w1 = server w" "sent w1 = sent w @ [via t]"
    by blast
  let ?e = "exc_of (server w (length (sent w)) (via t))"
  from 0(4) have "retryable c (server w (length (sent w)) (via t))" by blast
  from a retryable_raises [OF this] have a': "attempt c w = (Inl ?e, c1, w1)" by simp
  from on_failure_ok [OF k(1), of w1] obtain c2 w2 where
    f: "on_failure c1 w1 = (Inr (), c2, w2)" and k2: "retries_max c2 = retries_max c1"
    "sent w2 = sent w1" by blast
  show ?case
  proof (cases "caught_by (retry_exceptions c1) ?e")
    case True
    with 0(3) a' f k k2 last_round
    have "retry_loop retries c w = (Inl ?e, c2, logger ERROR ''max retries reached'' w2)"
      by (simp add: retry_loop.simps)
    with k k2 0(3) show ?thesis by (simp add: logger_def)
  next
    case False
    with 0(3) a' have "retry_loop retries c w = (Inl ?e, c1, w1)"
      by (simp add: retry_loop.simps)
    with k 0(3) show ?thesis by simp
  qed
next
  case (Suc n)
  then have more: "\<not> retries + 1 > retries_max c" by simp
  from attempt_ok [OF Suc(3), of w] obtain t :: transport and c1 w1 where
    a: "attempt c w =
             (verdict c (server w (length (sent w)) (via t)), c1, w1)"
    and k: "cache_data c1 = Some jar" "retries_max c1 = retries_max c"
    "retry_exceptions c1 = retry_exceptions c" "retry_status_codes c1 = retry_status_codes c"
    "server w1 = server w" "sent w1 = sent w @ [via t]"
    by blast
  let ?e = "exc_of (server w (length (sent w)) (via t))"
  from Suc(5) have "retryable c (server w (length (sent w)) (via t))" by blast
  from a retryable_raises [OF this] have a': "attempt c w = (Inl ?e, c1, w1)" by simp
  from on_failure_ok [OF k(1), of w1] obtain c2 w2 where
    f: "on_failure c1 w1 = (Inr (), c2, w2)" and k2: "cache_data c2 = Some jar"
    "retries_max c2 = retries_max c1" "retry_exceptions c2 = retry_exceptions c1"
    "retry_status_codes c2 = retry_status_codes c1" "server w2 = server w1"
    "sent w2 = sent w1" by blast
  show ?case
  proof (cases "caught_by (retry_exceptions c1) ?e")
    case True
    with Suc(4) a' f k k2 more
    have step: "retry_loop retries c w = retry_loop (retries + 1) c2 w2"
      by (simp add: retry_loop.simps)
    have n: "n = nat (retries_max c2 - (retries + 1))" using Suc(2) k k2 by simp
    have le: "retries + 1 \<le> retries_max c2" using more k k2 by simp
    have all: "\<forall>k p. retryable c2 (server w2 k p)"
      using Suc(5) k k2 by (simp add: retryable_same [of c2 c])
    from Suc(1) [OF n k2(1) le all] obtain c' w' where
      r: "retry_loop (retries + 1) c2 w2
             = (Inl (exc_of (server w2 (length (sent w') - 1) (last (sent w')))), c', w')"
      and b: "length (sent w2) < length (sent w')"
      "int (length (sent w')) \<le> int (length (sent w2)) + (retries_max c2 - (retries + 1) + 1)"
      by blast
    show ?thesis
      apply (rule exI [of _ c'], rule exI [of _ w'])
      using step r b k k2 by simp
  next
    case False
    with Suc(4) a' have "retry_loop retries c w = (Inl ?e, c1, w1)"
      by (simp add: retry_loop.simps)
    with k Suc(4) show ?thesis by simp
  qed
qed

lemma status_error_not_caught:
  "\<not> caught_by [RequestError, ProxyError, ConnectTimeout, ConnectionResetError] (StatusError code)"
  by (simp add: caught_by_def issubclass_def eval_nat_numeral)

lemma timeout_caught:
  "caught_by [RequestError, ProxyError, ConnectTimeout, ConnectionResetError]
     (PyExc ConnectTimeout m)"
  by (simp add: caught_by_def issubclass_def eval_nat_numeral)

lemma ex_pool_next:
  "get_next_proxy ex_pool w
     = (Inr (Some ''http://192.0.2.1:8080''),
        ex_pool\<lparr>current_proxy := Some ''http://192.0.2.1:8080''\<rparr>,
        w\<lparr>asked := asked w @ [(DebugProxyProvider ''http://192.0.2.1:8080'', True)]\<rparr>)"
  by (simp add: get_next_proxy_def get_nowait_def ex_pool_def new_pool_def Queue_def
        QueueEmpty_caught note_call_def truthy_def)

lemma ex_attempt:
  "attempt ex_client (ex_world\<lparr>server := sv\<rparr>)
     = (verdict ex_client (sv 0 (Some ''http://192.0.2.1:8080'')),
        ex_client\<lparr>proxy_pool := ex_pool\<lparr>current_proxy := Some ''http://192.0.2.1:8080''\<rparr>,
                  fetched := [Some ''http://192.0.2.1:8080''],
                  client_proxy := Some ''http://192.0.2.1:8080'',
                  async_client := Some \<lparr>via = Some ''http://192.0.2.1:8080'', closed = False\<rparr>\<rparr>,
        ex_world\<lparr>server := sv,
                  asked := [(DebugProxyProvider ''http://192.0.2.1:8080'', True)],
                  sent := [Some ''http://192.0.2.1:8080'']\<rparr>)"
proof -
  have p: "proxy_pool ex_client = ex_pool" "cache_data ex_client = Some []"
    "async_client ex_client = None" "fetched ex_client = []"
    "retry_status_codes ex_client = [429, 500, 502, 503, 504]"
    by (simp_all add: ex_client_def new_client_def)
  show ?thesis
    by (simp add: attempt_def get_http_client_def create_http_client_def pool_next_def p
          ex_pool_next Let_def verdict_def ex_world_def split: http_result.splits)
qed

text \<open>
  C1, the code at the failing input.  With \<open>max_retries = 3\<close> and a server that
  answers every request with status 500, the executor sends one request and the
  HTTPStatusError leaves \<open>_request_with_retry\<close> at once: the class is not among
  \<open>retry_exceptions\<close>, so the handler that retries never runs.  A response with
  status 200 is returned after one request.
\<close>

theorem C1_status_500_surfaces_at_once:
  "retries_max ex_client = 3
   \<and> request_with_retry ex_client ex_busy
     = (Inl (StatusError 500),
        ex_client\<lparr>proxy_pool := ex_pool\<lparr>current_proxy := Some ''http://192.0.2.1:8080''\<rparr>,
                  fetched := [Some ''http://192.0.2.1:8080''],
                  client_proxy := Some ''http://192.0.2.1:8080'',
                  async_client := Some \<lparr>via = Some ''http://192.0.2.1:8080'', closed = False\<rparr>\<rparr>,
        ex_busy\<lparr>asked := [(DebugProxyProvider ''http://192.0.2.1:8080'', True)],
                 sent := [Some ''http://192.0.2.1:8080'']\<rparr>)
   \<and> fst (request_with_retry ex_client ex_fine)
     = Inr (Some \<lparr>status_code = 200, content = ''ok''\<rparr>)
   \<and> sent (snd (snd (request_with_retry ex_client ex_fine))) = [Some ''http://192.0.2.1:8080'']"
proof -
  have m: "retries_max ex_client = 3"
    "retry_exceptions ex_client = [RequestError, ProxyError, ConnectTimeout, ConnectionResetError]"
    "retry_status_codes ex_client = [429, 500, 502, 503, 504]"
    by (simp_all add: ex_client_def new_client_def ex_cfg_def)
  have 1: "request_with_retry ex_client ex_busy
     = (Inl (StatusError 500),
        ex_client\<lparr>proxy_pool := ex_pool\<lparr>current_proxy := Some ''http://192.0.2.1:8080''\<rparr>,
                  fetched := [Some ''http://192.0.2.1:8080''],
                  client_proxy := Some ''http://192.0.2.1:8080'',
                  async_client := Some \<lparr>via = Some ''http://192.0.2.1:8080'', closed = False\<rparr>\<rparr>,
        ex_busy\<lparr>asked := [(DebugProxyProvider ''http://192.0.2.1:8080'', True)],
                 sent := [Some ''http://192.0.2.1:8080'']\<rparr>)"
    unfolding request_with_retry_def ex_busy_def
    by (subst retry_loop.simps)
       (simp add: m ex_attempt verdict_def status_error_not_caught)
  have 2: "request_with_retry ex_client ex_fine
     = (Inr (Some \<lparr>status_code = 200, content = ''ok''\<rparr>),
        ex_client\<lparr>proxy_pool := ex_pool\<lparr>current_proxy := Some ''http://192.0.2.1:8080''\<rparr>,
                  fetched := [Some ''http://192.0.2.1:8080''],
                  client_proxy := Some ''http://192.0.2.1:8080'',
                  async_client := Some \<lparr>via = Some ''http://192.0.2.1:8080'', closed = False\<rparr>\<rparr>,
        ex_fine\<lparr>asked := [(DebugProxyProvider ''http://192.0.2.1:8080'', True)],
                 sent := [Some ''http://192.0.2.1:8080'']\<rparr>)"
    unfolding request_with_retry_def ex_fine_def
    by (subst retry_loop.simps) (simp add: m ex_attempt verdict_def)
  from m 1 2 show ?thesis by simp
qed

text \<open>
  C4.  When every attempt fails with a retryable condition (an exception among
  \<open>retry_exceptions\<close>, or a status among \<open>retry_status_codes\<close>), the executor sends at
  least one and at most \<open>max_retries + 1\<close> requests, and the exception that leaves
  \<open>_request_with_retry\<close> is the one raised by the last request sent.
\<close>

theorem C4_attempts_bounded_last_error:
  assumes "cache_data c = Some jar" and "0 \<le> retries_max c"
    and "\<forall>k p. retryable c (server w k p)"
  shows "\<exists>c' w'. request_with_retry c w
             = (Inl (exc_of (server w (length (sent w') - 1) (last (sent w')))), c', w')
          \<and> length (sent w) < length (sent w')
          \<and> int (length (sent w')) \<le> int (length (sent w)) + (retries_max c + 1)"
  using loop_all_fail [OF refl assms(1) assms(2) assms(3)]
  by (simp add: request_with_retry_def)



theorem C4_attempts_bounded_last_error_witness:
  "cache_data ex_client = Some [] \<and> 0 \<le> retries_max ex_client
   \<and> (\<forall>k p. retryable ex_client (server ex_world k p))
   \<and> (\<exists>c' w'. request_with_retry ex_client ex_world
                  = (Inl (PyExc ConnectTimeout ''timed out''), c', w')
               \<and> 0 < length (sent w') \<and> length (sent w') \<le> 4)"
proof -
  have h: "cache_data ex_client = Some []" "0 \<le> retries_max ex_client"
    by (simp_all add: ex_client_def new_client_def ex_cfg_def)
  have r: "\<forall>k p. retryable ex_client (server ex_world k p)"
    by (simp add: retryable_def ex_world_def ex_client_def new_client_def timeout_caught)
  have m: "retries_max ex_client = 3" "sent ex_world = []"
    "\<And>k p. exc_of (server ex_world k p) = PyExc ConnectTimeout ''timed out''"
    by (simp_all add: ex_client_def new_client_def ex_cfg_def ex_world_def exc_of_def)
  from C4_attempts_bounded_last_error [OF h r] obtain c' w' where
    "request_with_retry ex_client ex_world
       = (Inl (exc_of (server ex_world (length (sent w') - 1) (last (sent w')))), c', w')"
    "length (sent ex_world) < length (sent w')"
    "int (length (sent w')) \<le> int (length (sent ex_world)) + (retries_max ex_client + 1)"
    by blast
  then have "request_with_retry ex_client ex_world = (Inl (PyExc ConnectTimeout ''timed out''), c', w')
             \<and> 0 < length (sent w') \<and> length (sent w') \<le> 4"
    by (simp add: m)
  with h r show ?thesis by blast
qed






subsection \<open>The buffer along the pool's operations\<close>

text \<open>
  The provider scan, a turn of the preload worker and \<open>get_next_proxy\<close> change the
  buffer only by the two steps of \<open>buffer_reach\<close>.
\<close>

lemma put_reach:
  "buffer_reach q \<Longrightarrow> \<not> full q \<Longrightarrow> buffer_reach (q\<lparr>items := items q @ [x]\<rparr>)"
  using buffer_reach.preload_put [of q x] by (simp add: put_nowait_def)

lemma scan_buffer_reach:
  "buffer_reach (proxy_queue s) \<Longrightarrow>
   buffer_reach (proxy_queue (fst (snd (scan chk ps wt s w))))"
proof (induction ps arbitrary: wt s w)
  case Nil
  then show ?case by simp
next
  case (Cons p ps)
  show ?case
  proof (cases "stop_event s")
    case True
    with Cons.prems show ?thesis by (simp add: scan.simps(2))
  next
    case False
    show ?thesis
    proof (cases "acceptable chk (answer p (note_call p (lock s) w))")
      case acc: True
      show ?thesis
      proof (cases "full (proxy_queue s)")
        case True
        with False acc Cons.prems show ?thesis by (simp add: scan_step)
      next
        case nf: False
        let ?s = "s\<lparr>proxy_queue := (proxy_queue s)
                     \<lparr>items := items (proxy_queue s) @ [the (answer p (note_call p (lock s) w))]\<rparr>\<rparr>"
        from put_reach [OF Cons.prems nf] have "buffer_reach (proxy_queue ?s)" by simp
        from Cons.IH [OF this] False acc nf show ?thesis by (simp add: scan_step)
      qed
    next
      case rej: False
      let ?s = "s\<lparr>invalid_proxy_count := invalid_proxy_count s + 1\<rparr>"
      from Cons.prems have "buffer_reach (proxy_queue ?s)" by simp
      from Cons.IH [OF this] False rej show ?thesis by (simp add: scan_step)
    qed
  qed
qed

lemma preload_pass_buffer_reach:
  assumes "buffer_reach (proxy_queue s)"
  shows "buffer_reach (proxy_queue (fst (snd (preload_pass chk s w))))"
proof -
  let ?s = "s\<lparr>lock := True\<rparr>"
  from assms have "buffer_reach (proxy_queue ?s)" by simp
  from scan_buffer_reach [OF this, of chk "providers s" "cooldown_time s" w] assms
  show ?thesis
    by (auto simp: preload_pass_def Let_def split: prod.splits flow.splits)
qed

lemma get_next_proxy_buffer_reach:
  assumes "buffer_reach (proxy_queue s)"
  shows "buffer_reach (proxy_queue (fst (snd (get_next_proxy s w))))"
proof (cases "items (proxy_queue s)")
  case Nil
  obtain r s' w' where f: "fallback_scan (providers s) (s\<lparr>lock := True\<rparr>) w = (r, s', w')"
    by (cases "fallback_scan (providers s) (s\<lparr>lock := True\<rparr>) w") auto
  from fallback_scan_char [of "providers s" "s\<lparr>lock := True\<rparr>" w] f
  have "proxy_queue s' = proxy_queue s" by simp
  with Nil f assms show ?thesis
    by (simp add: get_next_proxy_def get_nowait_def QueueEmpty_caught)
next
  case (Cons y ys)
  from buffer_reach.consumer_take [OF assms] Cons
  have "buffer_reach ((proxy_queue s)\<lparr>items := ys\<rparr>)" by (simp add: get_nowait_def)
  with Cons show ?thesis by (simp add: get_next_proxy_def get_nowait_def)
qed

end
